theory Spec2Isabelle
  imports Main
begin

section \<open>Python values and the operations HCDevice.py performs on them\<close>

text \<open>
  The values that flow through \<^verbatim>\<open>HCDevice\<close> are what \<^verbatim>\<open>json.loads\<close> produces and what
  the callers pass as payloads: \<^verbatim>\<open>None\<close>, booleans, integers (unbounded), strings, lists
  and dictionaries with string keys. Floating-point numbers are outside the model.
  A dictionary is an association list in insertion order with distinct keys.
  Strings are lists of 8-bit characters, read as the code points U+0000 to U+00FF.
\<close>

datatype json =
    JNull
  | JBool bool
  | JInt int
  | JStr string
  | JArr "json list"
  | JObj "(string \<times> json) list"

text \<open>
  Exceptions. \<open>Exception\<close>, \<open>TypeError\<close> and \<open>ValueError\<close> carry the message of the
  \<^verbatim>\<open>raise\<close> statement that built them. The others are raised by the interpreter or by a
  library: \<open>KeyError\<close> by a dictionary lookup (with the missing key), \<open>IndexError\<close> by
  \<^verbatim>\<open>x[0]\<close> on an empty sequence, \<open>AttributeError\<close> by a missing method,
  \<open>InterpTypeError\<close> is the \<^verbatim>\<open>TypeError\<close> of an operation applied to a value of the wrong
  type (its message is not modelled), \<open>JSONDecodeError\<close> by \<^verbatim>\<open>json.loads\<close>, and
  \<open>TransportError\<close> stands for the errors of the socket library. All of these are
  derived from \<^verbatim>\<open>Exception\<close>. \<open>KeyboardInterrupt\<close> and \<open>SystemExit\<close> are not: they are
  derived from \<^verbatim>\<open>BaseException\<close> only, the first is raised where a signal interrupts the
  process, as in a blocking read, the second by \<^verbatim>\<open>sys.exit()\<close>.
\<close>

datatype error =
    Exception string
  | TypeError string
  | ValueError string
  | KeyError json
  | IndexError
  | AttributeError
  | InterpTypeError
  | JSONDecodeError
  | TransportError
  | KeyboardInterrupt
  | SystemExit

text \<open>\<^verbatim>\<open>isinstance(e, Exception)\<close>: what a clause \<^verbatim>\<open>except Exception\<close> catches.\<close>

fun is_Exception :: "error \<Rightarrow> bool" where
  "is_Exception KeyboardInterrupt = False"
| "is_Exception SystemExit = False"
| "is_Exception e = True"

subsection \<open>\<^verbatim>\<open>str()\<close> and \<^verbatim>\<open>repr()\<close>\<close>

definition digit :: "nat \<Rightarrow> char" where
  "digit n = ''0123456789abcdef'' ! n"

fun str_nat :: "nat \<Rightarrow> string" where
  "str_nat n = (if n < 10 then [digit n] else str_nat (n div 10) @ [digit (n mod 10)])"

declare str_nat.simps [simp del]

definition str_int :: "int \<Rightarrow> string" where
  "str_int i = (if i < 0 then CHR ''-'' # str_nat (nat (- i)) else str_nat (nat i))"

text \<open>
  \<^verbatim>\<open>repr\<close> of a string: double quotes when the string holds a single quote and no double
  quote, single quotes otherwise; the quote and the backslash are escaped, tab, newline
  and carriage return are written \<^verbatim>\<open>\t \n \r\<close>, every other non-printable character
  (below U+0020, U+007F to U+00A0, U+00AD) as \<^verbatim>\<open>\xhh\<close>.
\<close>

definition repr_quote :: "string \<Rightarrow> char" where
  "repr_quote s =
     (if CHR 0x27 \<in> set s \<and> CHR 0x22 \<notin> set s then CHR 0x22 else CHR 0x27)"

definition repr_char :: "char \<Rightarrow> char \<Rightarrow> string" where
  "repr_char q c =
     (let n = (of_char c :: nat) in
      if c = q \<or> c = CHR 0x5C then [CHR 0x5C, c]
      else if n = 9 then [CHR 0x5C, CHR ''t'']
      else if n = 10 then [CHR 0x5C, CHR ''n'']
      else if n = 13 then [CHR 0x5C, CHR ''r'']
      else if n < 32 \<or> (127 \<le> n \<and> n \<le> 160) \<or> n = 173
        then [CHR 0x5C, CHR ''x'', digit (n div 16), digit (n mod 16)]
      else [c])"

definition repr_str :: "string \<Rightarrow> string" where
  "repr_str s = (let q = repr_quote s in q # concat (map (repr_char q) s) @ [q])"

fun join :: "string \<Rightarrow> string list \<Rightarrow> string" where
  "join sep [] = []"
| "join sep [x] = x"
| "join sep (x # y # ys) = x @ sep @ join sep (y # ys)"

fun py_repr :: "json \<Rightarrow> string" where
  "py_repr JNull = ''None''"
| "py_repr (JBool b) = (if b then ''True'' else ''False'')"
| "py_repr (JInt i) = str_int i"
| "py_repr (JStr s) = repr_str s"
| "py_repr (JArr xs) = ''['' @ join '', '' (map py_repr xs) @ '']''"
| "py_repr (JObj kvs) =
     ''{'' @ join '', '' (map (\<lambda>kv. repr_str (fst kv) @ '': '' @ py_repr (snd kv)) kvs) @ ''}''"

fun py_str :: "json \<Rightarrow> string" where
  "py_str (JStr s) = s"
| "py_str v = py_repr v"

subsection \<open>Type tests, arithmetic, indexing, membership, iteration\<close>

text \<open>\<^verbatim>\<open>isinstance(x, int)\<close>: true of integers and, as in Python, of booleans.\<close>

fun is_int :: "json \<Rightarrow> bool" where
  "is_int (JInt i) = True"
| "is_int (JBool b) = True"
| "is_int v = False"

text \<open>The number an int-typed value stands for in a comparison (\<^verbatim>\<open>True\<close> is 1).
  It is applied only behind \<open>is_int\<close>.\<close>

fun int_of :: "json \<Rightarrow> int" where
  "int_of (JInt i) = i"
| "int_of (JBool b) = (if b then 1 else 0)"
| "int_of v = 0"

text \<open>\<^verbatim>\<open>x += 1\<close>.\<close>

fun iadd1 :: "json \<Rightarrow> error + json" where
  "iadd1 (JInt i) = Inr (JInt (i + 1))"
| "iadd1 (JBool b) = Inr (JInt ((if b then 1 else 0) + 1))"
| "iadd1 v = Inl InterpTypeError"

text \<open>\<^verbatim>\<open>x[k]\<close> for a string \<open>k\<close>.\<close>

fun getitem_str :: "json \<Rightarrow> string \<Rightarrow> error + json" where
  "getitem_str (JObj kvs) k =
     (case map_of kvs k of Some v \<Rightarrow> Inr v | None \<Rightarrow> Inl (KeyError (JStr k)))"
| "getitem_str v k = Inl InterpTypeError"

text \<open>\<^verbatim>\<open>x[0]\<close>.\<close>

fun getitem_0 :: "json \<Rightarrow> error + json" where
  "getitem_0 (JArr []) = Inl IndexError"
| "getitem_0 (JArr (x # xs)) = Inr x"
| "getitem_0 (JStr []) = Inl IndexError"
| "getitem_0 (JStr (c # cs)) = Inr (JStr [c])"
| "getitem_0 (JObj kvs) = Inl (KeyError (JInt 0))"
| "getitem_0 v = Inl InterpTypeError"

text \<open>\<^verbatim>\<open>x.get(k, default)\<close>.\<close>

fun dict_get :: "json \<Rightarrow> string \<Rightarrow> json \<Rightarrow> error + json" where
  "dict_get (JObj kvs) k dflt = Inr (case map_of kvs k of Some v \<Rightarrow> v | None \<Rightarrow> dflt)"
| "dict_get v k dflt = Inl AttributeError"

fun starts_with :: "string \<Rightarrow> string \<Rightarrow> bool" where
  "starts_with [] s = True"
| "starts_with (p # ps) [] = False"
| "starts_with (p # ps) (c # cs) = (p = c \<and> starts_with ps cs)"

text \<open>\<^verbatim>\<open>p in s\<close> for two strings.\<close>

fun contains_sub :: "string \<Rightarrow> string \<Rightarrow> bool" where
  "contains_sub p [] = (p = [])"
| "contains_sub p (c # cs) = (starts_with p (c # cs) \<or> contains_sub p cs)"

text \<open>\<^verbatim>\<open>k in x\<close> for a string \<open>k\<close>: a key of a dictionary, an element of a list,
  a substring of a string.\<close>

fun contains_str :: "string \<Rightarrow> json \<Rightarrow> error + bool" where
  "contains_str k (JObj kvs) = Inr (k \<in> fst ` set kvs)"
| "contains_str k (JArr xs) = Inr (JStr k \<in> set xs)"
| "contains_str k (JStr s) = Inr (contains_sub k s)"
| "contains_str k v = Inl InterpTypeError"

fun py_len :: "json \<Rightarrow> error + nat" where
  "py_len (JArr xs) = Inr (length xs)"
| "py_len (JStr s) = Inr (length s)"
| "py_len (JObj kvs) = Inr (length kvs)"
| "py_len v = Inl InterpTypeError"

text \<open>The items a \<^verbatim>\<open>for\<close> loop visits.\<close>

fun py_iter :: "json \<Rightarrow> error + json list" where
  "py_iter (JArr xs) = Inr xs"
| "py_iter (JStr s) = Inr (map (\<lambda>c. JStr [c]) s)"
| "py_iter (JObj kvs) = Inr (map (\<lambda>kv. JStr (fst kv)) kvs)"
| "py_iter v = Inl InterpTypeError"

text \<open>\<^verbatim>\<open>d[k] = v\<close> on a dictionary: the value of an existing key is replaced where it
  stands, a new key goes to the end.\<close>

fun dict_set :: "'k \<Rightarrow> 'v \<Rightarrow> ('k \<times> 'v) list \<Rightarrow> ('k \<times> 'v) list" where
  "dict_set k v [] = [(k, v)]"
| "dict_set k v (p # ps) = (if fst p = k then (fst p, v) # ps else p # dict_set k v ps)"

subsection \<open>String methods and the regular expression\<close>

text \<open>\<^verbatim>\<open>s.lower()\<close> on the code points below U+0100.\<close>

definition lower_char :: "char \<Rightarrow> char" where
  "lower_char c =
     (let n = (of_char c :: nat) in
      if (65 \<le> n \<and> n \<le> 90) \<or> (192 \<le> n \<and> n \<le> 222 \<and> n \<noteq> 215)
      then char_of (n + 32) else c)"

definition lower :: "string \<Rightarrow> string" where
  "lower s = map lower_char s"

text \<open>\<^verbatim>\<open>s.split(sep)\<close> for a one-character separator.\<close>

fun split :: "char \<Rightarrow> string \<Rightarrow> string list" where
  "split sep [] = [[]]"
| "split sep (c # cs) =
     (if c = sep then [] # split sep cs
      else (case split sep cs of [] \<Rightarrow> [[c]] | w # ws \<Rightarrow> (c # w) # ws))"

text \<open>
  \<^verbatim>\<open>re.sub(r"^.*\.", "", name)\<close>. The pattern is anchored at the start of the string,
  \<^verbatim>\<open>.*\<close> is greedy and does not match a newline: what is removed is the part of the first
  line up to and including its last dot, if the first line has a dot.
\<close>

definition trim_name :: "string \<Rightarrow> string" where
  "trim_name name =
     (let line = takeWhile (\<lambda>c. c \<noteq> CHR 0x0A) name in
      if CHR ''.'' \<in> set line
      then drop (length line - length (takeWhile (\<lambda>c. c \<noteq> CHR ''.'') (rev line))) name
      else name)"

text \<open>\<^verbatim>\<open>re.sub(r"=", "", token)\<close>.\<close>

definition strip_padding :: "string \<Rightarrow> string" where
  "strip_padding token = filter (\<lambda>c. c \<noteq> CHR ''='') token"

section \<open>The feature catalog, the socket and the device object\<close>

text \<open>
  Modelled from the spec: the type of a feature descriptor. The catalog is handed to
  \<^verbatim>\<open>HCDevice.__init__\<close> from outside and the source declares no type for its entries;
  the spec's data model gives a descriptor a name (a string), a textual access level,
  an optional enumeration from raw values to labels, and optional integer bounds. The
  fields are the keys \<^verbatim>\<open>name access values min max\<close> that the source reads; a field
  that is \<open>None\<close> is a key the dictionary does not have. Descriptors are non-empty
  dictionaries, hence true in a condition, and \<^verbatim>\<open>int(...)\<close> of an integer bound is the
  bound itself.
\<close>

record feature =
  f_name :: string
  f_access :: "string option"
  f_values :: "(string \<times> string) list option"
  f_min :: "int option"
  f_max :: "int option"

type_synonym catalog = "(string \<times> feature) list"

text \<open>\<^verbatim>\<open>str(feature["values"])\<close>.\<close>

definition str_values :: "(string \<times> string) list \<Rightarrow> string" where
  "str_values vs = py_repr (JObj (map (\<lambda>kv. (fst kv, JStr (snd kv))) vs))"

text \<open>
  The socket object \<^verbatim>\<open>ws\<close> is an external collaborator. Its behaviour is a script:
  \<open>rx\<close> lists what the coming calls of \<^verbatim>\<open>ws.recv()\<close> do (return \<^verbatim>\<open>None\<close>, raise an
  error, which may be any, or return a buffer), \<open>send_raises\<close> and \<open>reconnect_raises\<close>
  say which of the coming calls of \<^verbatim>\<open>ws.send\<close> and \<^verbatim>\<open>ws.reconnect\<close> raise; these fail
  with an error of the socket library, \<open>TransportError\<close>. Past the end of a script
  \<^verbatim>\<open>recv\<close> returns \<^verbatim>\<open>None\<close> and the other two succeed. \<open>sent\<close> records the argument of
  every call of \<^verbatim>\<open>ws.send\<close>, also of those that raised, and \<open>connections\<close> counts the
  calls of \<^verbatim>\<open>ws.reconnect\<close>. A received buffer is represented by what \<^verbatim>\<open>json.loads\<close>
  makes of it.
\<close>

datatype frame = Undecodable | Decodes json

datatype rx_event = RxNone | RxRaise error | RxFrame frame

record transport =
  rx :: "rx_event list"
  send_raises :: "bool list"
  reconnect_raises :: "bool list"
  sent :: "json list"
  connections :: nat

fun ws_recv :: "transport \<Rightarrow> (error + frame option) \<times> transport" where
  "ws_recv w =
     (case rx w of
        [] \<Rightarrow> (Inr None, w)
      | RxNone # r \<Rightarrow> (Inr None, w\<lparr>rx := r\<rparr>)
      | RxRaise e # r \<Rightarrow> (Inl e, w\<lparr>rx := r\<rparr>)
      | RxFrame buf # r \<Rightarrow> (Inr (Some buf), w\<lparr>rx := r\<rparr>))"

fun ws_send :: "json \<Rightarrow> transport \<Rightarrow> (error + unit) \<times> transport" where
  "ws_send msg w =
     (case send_raises w of
        True # r \<Rightarrow> (Inl TransportError, w\<lparr>send_raises := r, sent := sent w @ [msg]\<rparr>)
      | False # r \<Rightarrow> (Inr (), w\<lparr>send_raises := r, sent := sent w @ [msg]\<rparr>)
      | [] \<Rightarrow> (Inr (), w\<lparr>sent := sent w @ [msg]\<rparr>))"

fun ws_reconnect :: "transport \<Rightarrow> (error + unit) \<times> transport" where
  "ws_reconnect w =
     (case reconnect_raises w of
        True # r \<Rightarrow> (Inl TransportError, w\<lparr>reconnect_raises := r, connections := Suc (connections w)\<rparr>)
      | False # r \<Rightarrow> (Inr (), w\<lparr>reconnect_raises := r, connections := Suc (connections w)\<rparr>)
      | [] \<Rightarrow> (Inr (), w\<lparr>connections := Suc (connections w)\<rparr>))"

text \<open>\<^verbatim>\<open>json.loads(buf)\<close>.\<close>

fun json_loads :: "frame \<Rightarrow> error + json" where
  "json_loads Undecodable = Inl JSONDecodeError"
| "json_loads (Decodes msg) = Inr msg"

text \<open>
  What the program prints, one constructor for each \<^verbatim>\<open>print\<close> of the source with the
  values it interpolates. The time stamp, the device name and the traceback that the
  lines also carry are left out.
\<close>

datatype log_event =
    LogRX json
  | LogProcessingFeature string string
  | LogReceiveError error
  | LogErrorHandlingMsg error frame
  | LogServiceNotKnown
  | LogFailedToSend error json
  | LogUnknownResource json
  | LogReceived json
  | LogUnknownResponse json
  | LogUnknownMessage json

text \<open>
  The object: the fields \<^verbatim>\<open>__init__\<close> sets, the socket, the printed lines, and the source
  of random tokens (\<open>nonces n\<close> is what the \<open>n\<close>-th evaluation of
  \<^verbatim>\<open>base64url_encode(get_random_bytes(32)).decode("UTF-8")\<close> returns, \<open>nonces_used\<close>
  counts the evaluations). \<^verbatim>\<open>None\<close> is \<open>JNull\<close>; a catalog that is \<^verbatim>\<open>None\<close> is \<open>None\<close>.
  An entry \<^verbatim>\<open>{"version": v}\<close> of \<open>services\<close> is kept as \<open>v\<close>.
\<close>

record device =
  ws :: transport
  features :: "catalog option"
  session_id :: json
  tx_msg_id :: json
  device_name :: string
  device_id :: string
  debug :: bool
  name :: string
  services_initialized :: bool
  services :: "(json \<times> json) list"
  token :: json
  out :: "log_event list"
  nonces :: "nat \<Rightarrow> string"
  nonces_used :: nat

definition init :: "transport \<Rightarrow> catalog option \<Rightarrow> string \<Rightarrow> (nat \<Rightarrow> string) \<Rightarrow> device" where
  "init w fs nm rnd =
     \<lparr>ws = w, features = fs, session_id = JNull, tx_msg_id = JNull,
      device_name = ''hcpy'', device_id = ''0badcafe'', debug = False, name = nm,
      services_initialized = False, services = [], token = JNull, out = [],
      nonces = rnd, nonces_used = 0\<rparr>"

text \<open>
  The Session State of the spec: session id, message counter, discovery flag, service
  table and token.
\<close>

definition session :: "device \<Rightarrow> json \<times> json \<times> bool \<times> (json \<times> json) list \<times> json" where
  "session d = (session_id d, tx_msg_id d, services_initialized d, services d, token d)"

subsection \<open>Statements that may raise\<close>

text \<open>
  A method takes the object and returns the object as it has become, with either the
  exception that left the method or the value it returned.
\<close>

type_synonym 'a prog = "device \<Rightarrow> (error + 'a) \<times> device"

definition return :: "'a \<Rightarrow> 'a prog" where
  "return x d = (Inr x, d)"

definition raise :: "error \<Rightarrow> 'a prog" where
  "raise e d = (Inl e, d)"

definition lift :: "error + 'a \<Rightarrow> 'a prog" where
  "lift r d = (r, d)"

definition bind :: "'a prog \<Rightarrow> ('a \<Rightarrow> 'b prog) \<Rightarrow> 'b prog" where
  "bind m f d = (case m d of (Inl e, d') \<Rightarrow> (Inl e, d') | (Inr x, d') \<Rightarrow> f x d')"

definition print :: "log_event \<Rightarrow> unit prog" where
  "print ev d = (Inr (), d\<lparr>out := out d @ [ev]\<rparr>)"

definition send :: "json \<Rightarrow> unit prog" where
  "send msg d = (case ws_send msg (ws d) of (r, w) \<Rightarrow> (r, d\<lparr>ws := w\<rparr>))"

definition modify :: "(device \<Rightarrow> device) \<Rightarrow> unit prog" where
  "modify f d = (Inr (), f d)"

text \<open>Sequencing of steps that only compute.\<close>

definition and_then :: "error + 'a \<Rightarrow> ('a \<Rightarrow> error + 'b) \<Rightarrow> error + 'b" where
  "and_then r f = (case r of Inl e \<Rightarrow> Inl e | Inr x \<Rightarrow> f x)"

text \<open>A \<^verbatim>\<open>for\<close> loop whose body computes or raises.\<close>

fun for_each :: "('a \<Rightarrow> error + unit) \<Rightarrow> 'a list \<Rightarrow> error + unit" where
  "for_each f [] = Inr ()"
| "for_each f (x # xs) = (case f x of Inl e \<Rightarrow> Inl e | Inr u \<Rightarrow> for_each f xs)"

section \<open>\<^verbatim>\<open>HCDevice.parse_values\<close>\<close>

text \<open>One round of the loop: the key and the value it stores in \<^verbatim>\<open>result\<close>.\<close>

definition parse_value :: "catalog \<Rightarrow> json \<Rightarrow> error + string \<times> json" where
  "parse_value fs msg =
     and_then (getitem_str msg ''uid'') (\<lambda>uid_v.
     and_then (getitem_str msg ''value'') (\<lambda>value.
       let uid = py_str uid_v; value_str = py_str value in
       (case map_of fs uid of
          None \<Rightarrow> Inr (trim_name uid, value)
        | Some status \<Rightarrow>
            Inr (trim_name (f_name status),
                 (case f_values status of
                    None \<Rightarrow> value
                  | Some vs \<Rightarrow>
                      (case map_of vs value_str of None \<Rightarrow> value | Some label \<Rightarrow> JStr label))))))"

fun parse_loop :: "catalog \<Rightarrow> json list \<Rightarrow> (string \<times> json) list \<Rightarrow> error + (string \<times> json) list" where
  "parse_loop fs [] result = Inr result"
| "parse_loop fs (msg # rest) result =
     (case parse_value fs msg of
        Inl e \<Rightarrow> Inl e
      | Inr (nm, value) \<Rightarrow> parse_loop fs rest (dict_set nm value result))"

definition parse_values :: "catalog option \<Rightarrow> json \<Rightarrow> error + json" where
  "parse_values cat vals =
     (case cat of
        None \<Rightarrow> Inr vals
      | Some fs \<Rightarrow>
          if fs = [] then Inr vals
          else and_then (py_iter vals) (\<lambda>items.
               and_then (parse_loop fs items []) (\<lambda>result. Inr (JObj result))))"

section \<open>\<^verbatim>\<open>HCDevice.test_program_data\<close>\<close>

definition test_option :: "catalog \<Rightarrow> json \<Rightarrow> error + unit" where
  "test_option fs opt =
     and_then (getitem_str opt ''uid'') (\<lambda>option_uid.
       if map_of fs (py_str option_uid) = None
       then Inl (ValueError (''Unable to configure appliance. Option UID '' @ py_str option_uid
                              @ '' is not valid for this device.''))
       else Inr ())"

definition test_program :: "catalog option \<Rightarrow> json \<Rightarrow> error + unit" where
  "test_program cat data =
     and_then (contains_str ''program'' data) (\<lambda>has_program.
     if \<not> has_program then Inl (TypeError ''Message data invalid, no program specified.'')
     else and_then (getitem_str data ''program'') (\<lambda>program.
     if \<not> is_int program
     then Inl (TypeError (''Message data invalid, UID in '' @ [CHR 0x27] @ ''program'' @ [CHR 0x27]
                          @ '' must be an integer.''))
     else (let uid = py_str program in
     (case cat of
        None \<Rightarrow> Inl InterpTypeError
      | Some fs \<Rightarrow>
     (case map_of fs uid of
        None \<Rightarrow> Inl (ValueError (''Unable to configure appliance. Program UID '' @ uid
                                  @ '' is not valid for this device.''))
      | Some feature \<Rightarrow>
     if \<not> contains_sub ''.Program.'' (f_name feature)
     then Inl (ValueError (''Unable to configure appliance. Program UID '' @ uid
                           @ '' is not a valid program - '' @ f_name feature @ ''.''))
     else and_then (contains_str ''options'' data) (\<lambda>has_options.
     if has_options
     then and_then (getitem_str data ''options'') (\<lambda>options.
          and_then (py_iter options) (for_each (test_option fs)))
     else Inr ()))))))"

definition test_program_data :: "catalog option \<Rightarrow> json list \<Rightarrow> error + unit" where
  "test_program_data cat data_array = for_each (test_program cat) data_array"

section \<open>\<^verbatim>\<open>HCDevice.test_feature\<close>\<close>

text \<open>The block \<^verbatim>\<open>if "values" in feature\<close>.\<close>

definition check_values :: "feature \<Rightarrow> json \<Rightarrow> error + unit" where
  "check_values feature data =
     (case f_values feature of
        None \<Rightarrow> Inr ()
      | Some vs \<Rightarrow>
          and_then (getitem_str data ''value'') (\<lambda>v.
          if \<not> is_int v
          then Inl (Exception (''Unable to configure appliance. The value '' @ py_str v
                               @ '' must be an integer. Allowed values are '' @ str_values vs @ ''.''))
          else if map_of vs (py_str v) = None
          then Inl (Exception (''Unable to configure appliance. Value '' @ py_str v
                               @ '' is not a valid value. Allowed values are '' @ str_values vs
                               @ ''. ''))
          else Inr ()))"

text \<open>The block \<^verbatim>\<open>if "min" in feature\<close>.\<close>

definition check_range :: "feature \<Rightarrow> json \<Rightarrow> error + unit" where
  "check_range feature data =
     (case f_min feature of
        None \<Rightarrow> Inr ()
      | Some lo \<Rightarrow>
          (case f_max feature of
             None \<Rightarrow> Inl (KeyError (JStr ''max''))
           | Some hi \<Rightarrow>
               and_then (getitem_str data ''value'') (\<lambda>v.
               if \<not> is_int v \<or> int_of v < lo \<or> int_of v > hi
               then Inl (Exception (''Unable to configure appliance. Value '' @ py_str v
                                    @ '' is not a valid value. The value must be an integer in the range ''
                                    @ str_int lo @ '' and '' @ str_int hi @ ''.''))
               else Inr ())))"

text \<open>
  The first statements of the loop body, up to \<^verbatim>\<open>feature = self.features[uid]\<close>: they
  yield the stringified uid and its descriptor.
\<close>

definition locate_feature :: "catalog option \<Rightarrow> json \<Rightarrow> error + string \<times> feature" where
  "locate_feature cat data =
     and_then (contains_str ''uid'' data) (\<lambda>has_uid.
     if \<not> has_uid then Inl (Exception ''Unable to configure appliance. UID is required.'')
     else and_then (getitem_str data ''uid'') (\<lambda>uid_v.
     if \<not> is_int uid_v
     then Inl (Exception ''Unable to configure appliance. UID must be an integer.'')
     else and_then (contains_str ''value'' data) (\<lambda>has_value.
     if \<not> has_value then Inl (Exception ''Unable to configure appliance. Value is required.'')
     else (let uid = py_str uid_v in
     (case cat of
        None \<Rightarrow> Inl InterpTypeError
      | Some fs \<Rightarrow>
     (case map_of fs uid of
        None \<Rightarrow> Inl (Exception (''Unable to configure appliance. UID '' @ uid @ '' is not valid.''))
      | Some feature \<Rightarrow> Inr (uid, feature)))))))"

text \<open>The access check.\<close>

definition check_access :: "feature \<Rightarrow> string \<Rightarrow> error + unit" where
  "check_access feature uid =
     (case f_access feature of
        None \<Rightarrow> Inl (Exception (''Unable to configure appliance. Feature '' @ f_name feature
                                 @ '' with uid '' @ uid @ '' does not have access.''))
      | Some acc \<Rightarrow>
          (let access = lower acc in
           if access \<noteq> ''readwrite'' \<and> access \<noteq> ''writeonly''
           then Inl (Exception (''Unable to configure appliance. Feature '' @ f_name feature
                                @ '' with uid '' @ uid @ '' has got access '' @ acc @ ''.''))
           else Inr ()))"

text \<open>The body of the loop, for one element of \<^verbatim>\<open>data_array\<close>.\<close>

definition test_feature_data :: "json \<Rightarrow> unit prog" where
  "test_feature_data data =
     bind (\<lambda>d. lift (locate_feature (features d) data) d) (\<lambda>found.
     bind (print (LogProcessingFeature (f_name (snd found)) (fst found))) (\<lambda>u.
     lift (and_then (check_access (snd found) (fst found)) (\<lambda>u.
           and_then (check_values (snd found) data) (\<lambda>u.
           check_range (snd found) data)))))"

fun test_feature :: "json list \<Rightarrow> unit prog" where
  "test_feature [] = return ()"
| "test_feature (data # rest) = bind (test_feature_data data) (\<lambda>u. test_feature rest)"

section \<open>\<^verbatim>\<open>HCDevice.reply\<close> and \<^verbatim>\<open>HCDevice.get\<close>\<close>

definition reply :: "json \<Rightarrow> json \<Rightarrow> unit prog" where
  "reply msg rep =
     bind (lift (getitem_str msg ''sID'')) (\<lambda>sID.
     bind (lift (getitem_str msg ''msgID'')) (\<lambda>msgID.
     bind (lift (getitem_str msg ''resource'')) (\<lambda>resource.
     bind (lift (getitem_str msg ''version'')) (\<lambda>version.
     send (JObj [(''sID'', sID), (''msgID'', msgID), (''resource'', resource),
                 (''version'', version), (''action'', JStr ''RESPONSE''),
                 (''data'', JArr [rep])])))))"

text \<open>
  The first block of \<^verbatim>\<open>get\<close>: the version the envelope will carry, given the version
  bound to the parameter.
\<close>

definition resolve_version :: "string \<Rightarrow> json \<Rightarrow> json prog" where
  "resolve_version resource version d =
     (if services_initialized d then
        (let resource_parts = split CHR ''/'' resource in
         if length resource_parts > 1 then
           (let service = resource_parts ! 1 in
            case map_of (services d) (JStr service) of
              Some v \<Rightarrow> return v d
            | None \<Rightarrow> bind (print LogServiceNotKnown) (\<lambda>u. return version) d)
         else return version d)
      else return version d)"

text \<open>The block \<^verbatim>\<open>if action == "POST"\<close>.\<close>

definition validate :: "string \<Rightarrow> string \<Rightarrow> json list \<Rightarrow> unit prog" where
  "validate resource action data =
     (if action = ''POST'' then
        (if resource = ''/ro/values'' then test_feature data
         else if resource = ''/ro/activeProgram''
         then (\<lambda>d. lift (test_program_data (features d) data) d)
         else return ())
      else return ())"

text \<open>
  \<^verbatim>\<open>try: self.ws.send(msg) except Exception as e: print(...)\<close>
\<close>

definition try_send :: "json \<Rightarrow> unit prog" where
  "try_send msg d =
     (case send msg d of
        (Inl e, d') \<Rightarrow> if is_Exception e then print (LogFailedToSend e msg) d' else (Inl e, d')
      | (Inr u, d') \<Rightarrow> (Inr (), d'))"

text \<open>\<^verbatim>\<open>self.tx_msg_id += 1\<close>\<close>

definition increment_tx_msg_id :: "unit prog" where
  "increment_tx_msg_id d =
     (case iadd1 (tx_msg_id d) of
        Inl e \<Rightarrow> (Inl e, d)
      | Inr n \<Rightarrow> (Inr (), d\<lparr>tx_msg_id := n\<rparr>))"

text \<open>\<^verbatim>\<open>if isinstance(data, list) is False: data = [data]\<close>\<close>

fun as_list :: "json \<Rightarrow> json list" where
  "as_list (JArr xs) = xs"
| "as_list v = [v]"

text \<open>
  \<^verbatim>\<open>get(self, resource, version=1, action="GET", data=None)\<close>. An argument the caller
  leaves out is \<open>None\<close> and takes the default; \<^verbatim>\<open>data=None\<close> is \<open>JNull\<close>.
\<close>

definition get :: "string \<Rightarrow> json option \<Rightarrow> string option \<Rightarrow> json \<Rightarrow> unit prog" where
  "get resource version_arg action_arg data =
     (let version0 = (case version_arg of None \<Rightarrow> JInt 1 | Some v \<Rightarrow> v);
          action = (case action_arg of None \<Rightarrow> ''GET'' | Some a \<Rightarrow> a)
      in
      bind (resolve_version resource version0) (\<lambda>version.
      bind (\<lambda>d. return [(''sID'', session_id d), (''msgID'', tx_msg_id d),
                         (''resource'', JStr resource), (''version'', version),
                         (''action'', JStr action)] d) (\<lambda>msg.
      bind (if data \<noteq> JNull then
              (let data_list = as_list data in
               bind (validate resource action data_list) (\<lambda>u.
               return (msg @ [(''data'', JArr data_list)])))
            else return msg) (\<lambda>msg.
      bind (try_send (JObj msg)) (\<lambda>u.
      increment_tx_msg_id)))))"

section \<open>\<^verbatim>\<open>HCDevice.handle_message\<close> and \<^verbatim>\<open>HCDevice.recv\<close>\<close>

text \<open>\<^verbatim>\<open>"data" in msg and len(msg["data"]) > 0\<close>\<close>

definition has_data :: "json \<Rightarrow> error + bool" where
  "has_data msg =
     and_then (contains_str ''data'' msg) (\<lambda>present.
     if present
     then and_then (getitem_str msg ''data'') (\<lambda>data.
          and_then (py_len data) (\<lambda>n. Inr (n > 0)))
     else Inr False)"

text \<open>\<^verbatim>\<open>msg["data"][0]\<close>\<close>

definition first_data :: "json \<Rightarrow> error + json" where
  "first_data msg = and_then (getitem_str msg ''data'') getitem_0"

text \<open>
  The keys of \<^verbatim>\<open>self.services\<close> are whatever the device sent as service name. Python
  compares keys with \<^verbatim>\<open>==\<close>, under which \<^verbatim>\<open>True\<close> is 1 and \<^verbatim>\<open>False\<close> is 0, and refuses
  lists and dictionaries as keys.
\<close>

fun hashable :: "json \<Rightarrow> bool" where
  "hashable (JArr xs) = False"
| "hashable (JObj kvs) = False"
| "hashable v = True"

fun key_eq :: "json \<Rightarrow> json \<Rightarrow> bool" where
  "key_eq (JInt i) (JBool b) = (i = (if b then 1 else 0))"
| "key_eq (JBool b) (JInt i) = (i = (if b then 1 else 0))"
| "key_eq a b = (a = b)"

fun services_set :: "json \<Rightarrow> json \<Rightarrow> (json \<times> json) list \<Rightarrow> (json \<times> json) list" where
  "services_set k v [] = [(k, v)]"
| "services_set k v (p # ps) =
     (if key_eq (fst p) k then (fst p, v) # ps else p # services_set k v ps)"

text \<open>The loop \<^verbatim>\<open>for service in msg["data"]\<close>.\<close>

fun add_services :: "json list \<Rightarrow> unit prog" where
  "add_services [] = return ()"
| "add_services (service # rest) =
     bind (lift (getitem_str service ''version'')) (\<lambda>version.
     bind (lift (getitem_str service ''service'')) (\<lambda>key.
     if \<not> hashable key then raise InterpTypeError
     else bind (modify (\<lambda>d. d\<lparr>services := services_set key version (services d)\<rparr>)) (\<lambda>u.
          add_services rest)))"

text \<open>The branch \<^verbatim>\<open>elif action == "POST"\<close>.\<close>

definition handle_post :: "json \<Rightarrow> json \<Rightarrow> json prog" where
  "handle_post msg resource =
     (if resource = JStr ''/ei/initialValues'' then
        bind (lift (getitem_str msg ''sID'')) (\<lambda>sID.
        bind (modify (\<lambda>d. d\<lparr>session_id := sID\<rparr>)) (\<lambda>u.
        bind (lift (and_then (first_data msg) (\<lambda>rec. getitem_str rec ''edMsgID''))) (\<lambda>edMsgID.
        bind (modify (\<lambda>d. d\<lparr>tx_msg_id := edMsgID\<rparr>)) (\<lambda>u.
        bind (\<lambda>d. reply msg (JObj [(''deviceType'', JStr ''Application''),
                                     (''deviceName'', JStr (device_name d)),
                                     (''deviceID'', JStr (device_id d))]) d) (\<lambda>u.
        return (JObj []))))))
      else bind (print (LogUnknownResource resource)) (\<lambda>u. return (JObj [])))"

text \<open>The branch \<^verbatim>\<open>elif action == "RESPONSE" or action == "NOTIFY"\<close>.\<close>

definition handle_response :: "json \<Rightarrow> json \<Rightarrow> json prog" where
  "handle_response msg resource =
     (if resource = JStr ''/iz/info'' \<or> resource = JStr ''/ci/info'' then
        bind (lift (has_data msg)) (\<lambda>some.
        if some then lift (first_data msg) else return (JObj []))
      else if resource = JStr ''/ro/descriptionChange''
              \<or> resource = JStr ''/ro/allDescriptionChanges'' then return (JObj [])
      else if resource = JStr ''/ni/info'' then
        bind (lift (has_data msg)) (\<lambda>some.
        if some then lift (first_data msg) else return (JObj []))
      else if resource = JStr ''/ni/config'' then return (JObj [])
      else if resource = JStr ''/ro/allMandatoryValues'' \<or> resource = JStr ''/ro/values'' then
        bind (lift (contains_str ''data'' msg)) (\<lambda>present.
        if present
        then bind (lift (getitem_str msg ''data'')) (\<lambda>data.
             (\<lambda>d. lift (parse_values (features d) data) d))
        else bind (print (LogReceived msg)) (\<lambda>u. return (JObj [])))
      else if resource = JStr ''/ci/registeredDevices'' then return (JObj [])
      else if resource = JStr ''/ci/tzInfo'' then return (JObj [])
      else if resource = JStr ''/ci/authentication'' then
        bind (lift (has_data msg)) (\<lambda>some.
        if some
        then bind (lift (and_then (first_data msg) (\<lambda>rec. getitem_str rec ''response''))) (\<lambda>response.
             bind (modify (\<lambda>d. d\<lparr>token := response\<rparr>)) (\<lambda>u. return (JObj [])))
        else return (JObj []))
      else if resource = JStr ''/ci/services'' then
        bind (lift (and_then (getitem_str msg ''data'') py_iter)) (\<lambda>items.
        bind (add_services items) (\<lambda>u.
        bind (modify (\<lambda>d. d\<lparr>services_initialized := True\<rparr>)) (\<lambda>u.
        return (JObj []))))
      else bind (print (LogUnknownResponse msg)) (\<lambda>u. return (JObj [])))"

definition handle_message :: "frame \<Rightarrow> json prog" where
  "handle_message buf =
     bind (lift (json_loads buf)) (\<lambda>msg.
     bind (\<lambda>d. if debug d then print (LogRX msg) d else return () d) (\<lambda>u.
     bind (lift (getitem_str msg ''resource'')) (\<lambda>resource.
     bind (lift (getitem_str msg ''action'')) (\<lambda>action.
     bind (lift (contains_str ''code'' msg)) (\<lambda>has_code.
     if has_code then
       bind (lift (getitem_str msg ''code'')) (\<lambda>code.
       bind (lift (dict_get msg ''resource'' (JStr []))) (\<lambda>res.
       return (JObj [(''error'', code), (''resource'', res)])))
     else if action = JStr ''POST'' then handle_post msg resource
     else if action = JStr ''RESPONSE'' \<or> action = JStr ''NOTIFY''
     then handle_response msg resource
     else bind (print (LogUnknownMessage msg)) (\<lambda>u. return (JObj [])))))))"

text \<open>
  Both handlers of \<^verbatim>\<open>recv\<close> are \<^verbatim>\<open>except Exception\<close>: an error that is not derived from
  \<^verbatim>\<open>Exception\<close> leaves \<^verbatim>\<open>recv\<close>, with nothing printed.
\<close>

definition recv :: "json prog" where
  "recv d =
     (case ws_recv (ws d) of
        (Inl e, w) \<Rightarrow>
          if is_Exception e
          then bind (print (LogReceiveError e)) (\<lambda>u. return JNull) (d\<lparr>ws := w\<rparr>)
          else (Inl e, d\<lparr>ws := w\<rparr>)
      | (Inr None, w) \<Rightarrow> return JNull (d\<lparr>ws := w\<rparr>)
      | (Inr (Some buf), w) \<Rightarrow>
          (case handle_message buf (d\<lparr>ws := w\<rparr>) of
             (Inl e, d') \<Rightarrow>
               if is_Exception e
               then bind (print (LogErrorHandlingMsg e buf)) (\<lambda>u. return JNull) d'
               else (Inl e, d')
           | (Inr values, d') \<Rightarrow> (Inr values, d')))"

section \<open>\<^verbatim>\<open>HCDevice.reconnect\<close>\<close>

text \<open>
  The loop \<^verbatim>\<open>while True: self.recv(); if self.services_initialized: break\<close> has no bound:
  \<open>None\<close> is the loop that never leaves.
\<close>

partial_function (option) services_loop :: "device \<Rightarrow> ((error + unit) \<times> device) option" where
  "services_loop d =
     (case recv d of
        (Inl e, d') \<Rightarrow> Some (Inl e, d')
      | (Inr values, d') \<Rightarrow>
          if services_initialized d' then Some (Inr (), d') else services_loop d')"

text \<open>The two assignments to \<^verbatim>\<open>self.token\<close>.\<close>

definition new_token :: "unit prog" where
  "new_token d =
     (Inr (), d\<lparr>token := JStr (strip_padding (nonces d (nonces_used d))),
                 nonces_used := Suc (nonces_used d)\<rparr>)"

text \<open>The statements after the loop.\<close>

definition after_services :: "unit prog" where
  "after_services =
     bind new_token (\<lambda>u.
     bind (\<lambda>d. get ''/ci/authentication'' (Some (JInt 2)) None (JObj [(''nonce'', token d)]) d) (\<lambda>u.
     bind (get ''/ci/info'' None None JNull) (\<lambda>u.
     bind (get ''/iz/info'' None None JNull) (\<lambda>u.
     bind (get ''/ci/registeredDevices'' None None JNull) (\<lambda>u.
     bind (get ''/ei/deviceReady'' (Some (JInt 2)) (Some ''NOTIFY'') JNull) (\<lambda>u.
     bind (get ''/ni/info'' None None JNull) (\<lambda>u.
     get ''/ro/allMandatoryValues'' None None JNull)))))))"

text \<open>The statements up to the loop.\<close>

definition before_services :: "unit prog" where
  "before_services =
     bind (\<lambda>d. case ws_reconnect (ws d) of (r, w) \<Rightarrow> (r, d\<lparr>ws := w\<rparr>)) (\<lambda>u.
     bind recv (\<lambda>values.
     get ''/ci/services'' None None JNull))"

definition reconnect :: "device \<Rightarrow> ((error + unit) \<times> device) option" where
  "reconnect d =
     (case before_services d of
        (Inl e, d') \<Rightarrow> Some (Inl e, d')
      | (Inr u, d') \<Rightarrow>
          (case services_loop d' of
             None \<Rightarrow> None
           | Some (Inl e, d'') \<Rightarrow> Some (Inl e, d'')
           | Some (Inr u, d'') \<Rightarrow> Some (after_services d'')))"

declare services_loop.simps [code]

section \<open>Example data\<close>

text \<open>A socket that has nothing to deliver and fails nowhere, and one with a script.\<close>

definition idle_socket :: transport where
  "idle_socket = \<lparr>rx = [], send_raises = [], reconnect_raises = [], sent = [], connections = 0\<rparr>"

definition scripted_socket :: "rx_event list \<Rightarrow> bool list \<Rightarrow> transport" where
  "scripted_socket events failures =
     \<lparr>rx = events, send_raises = failures, reconnect_raises = [], sent = [], connections = 0\<rparr>"

text \<open>A device as \<^verbatim>\<open>__init__\<close> leaves it, without catalog, on the idle socket.\<close>

definition new_device :: device where
  "new_device = init idle_socket None ''oven'' (\<lambda>n. [])"

text \<open>The same device on a socket that has the given events to deliver.\<close>

definition listening_device :: "rx_event list \<Rightarrow> device" where
  "listening_device events = new_device\<lparr>ws := scripted_socket events []\<rparr>"

text \<open>A device-reported error, as the appliance sends it.\<close>

definition error_envelope :: "(string \<times> json) list" where
  "error_envelope =
     [(''sID'', JInt 77), (''msgID'', JInt 12), (''resource'', JStr ''/ro/values''),
      (''version'', JInt 1), (''action'', JStr ''RESPONSE''), (''code'', JInt 404)]"

section \<open>Auxiliary notions for the statements\<close>

text \<open>
  What the body of the loop of \<^verbatim>\<open>test_feature\<close> decides for one element, the printing
  left aside: the composition of the blocks of \<open>test_feature_data\<close>.
\<close>

definition feature_verdict :: "catalog option \<Rightarrow> json \<Rightarrow> error + unit" where
  "feature_verdict cat data =
     and_then (locate_feature cat data) (\<lambda>found.
     and_then (check_access (snd found) (fst found)) (\<lambda>u.
     and_then (check_values (snd found) data) (\<lambda>u.
     check_range (snd found) data)))"

text \<open>
  The envelope \<^verbatim>\<open>get\<close> builds: the five fields, then \<^verbatim>\<open>data\<close> when a payload is given.
\<close>

definition envelope :: "json \<Rightarrow> json \<Rightarrow> string \<Rightarrow> json \<Rightarrow> string \<Rightarrow> json \<Rightarrow> json" where
  "envelope sid mid resource version action data =
     JObj ([(''sID'', sid), (''msgID'', mid), (''resource'', JStr resource),
            (''version'', version), (''action'', JStr action)]
           @ (if data = JNull then [] else [(''data'', JArr (as_list data))]))"

text \<open>The values the defaults of \<^verbatim>\<open>get\<close> bind.\<close>

definition version_or_default :: "json option \<Rightarrow> json" where
  "version_or_default version_arg = (case version_arg of None \<Rightarrow> JInt 1 | Some v \<Rightarrow> v)"

definition action_or_default :: "string option \<Rightarrow> string" where
  "action_or_default action_arg = (case action_arg of None \<Rightarrow> ''GET'' | Some a \<Rightarrow> a)"

text \<open>A small catalog: a switch, a bounded setting, a read-only status and a program.\<close>

definition example_catalog :: catalog where
  "example_catalog =
     [(''539'', \<lparr>f_name = ''BSH.Common.Setting.PowerState'', f_access = Some ''readWrite'',
                 f_values = Some [(''0'', ''Off''), (''1'', ''On'')], f_min = None, f_max = None\<rparr>),
      (''5123'', \<lparr>f_name = ''Cooking.Common.Setting.Lighting'', f_access = Some ''readwrite'',
                  f_values = None, f_min = Some 0, f_max = Some 100\<rparr>),
      (''527'', \<lparr>f_name = ''BSH.Common.Status.DoorState'', f_access = Some ''read'',
                 f_values = Some [(''0'', ''Open''), (''1'', ''Closed'')], f_min = None, f_max = None\<rparr>),
      (''8196'', \<lparr>f_name = ''Dishcare.Dishwasher.Program.Eco50'', f_access = None,
                  f_values = None, f_min = None, f_max = None\<rparr>)]"

text \<open>Two descriptors that have a lower bound and no upper bound, one writable and one
  read-only.\<close>

definition open_range_catalog :: catalog where
  "open_range_catalog =
     [(''558'', \<lparr>f_name = ''BSH.Common.Option.StartInRelative'', f_access = Some ''readwrite'',
                 f_values = None, f_min = Some 0, f_max = None\<rparr>),
      (''544'', \<lparr>f_name = ''BSH.Common.Option.RemainingProgramTime'', f_access = Some ''read'',
                 f_values = None, f_min = Some 0, f_max = None\<rparr>)]"

text \<open>A device past the first handshake message: session 77, next message id 100.\<close>

definition example_device :: "transport \<Rightarrow> device" where
  "example_device w =
     (init w (Some example_catalog) ''dishwasher'' (\<lambda>n. ''c2VjcmV0''))
       \<lparr>session_id := JInt 77, tx_msg_id := JInt 100\<rparr>"

text \<open>
  The condition of the spec on one record of a program-activation batch: a
  \<^verbatim>\<open>program\<close> field that is integer-typed and whose string resolves to a catalog entry
  with \<^verbatim>\<open>.Program.\<close> in its name, and, when there is an \<^verbatim>\<open>options\<close> field, a uid that
  resolves in the catalog for each of its items. Nothing else of an option's
  descriptor is looked at.
\<close>

fun option_resolves :: "catalog \<Rightarrow> json \<Rightarrow> bool" where
  "option_resolves fs (JObj kvs) =
     (case map_of kvs ''uid'' of None \<Rightarrow> False | Some u \<Rightarrow> map_of fs (py_str u) \<noteq> None)"
| "option_resolves fs v = False"

fun program_ok :: "catalog option \<Rightarrow> json \<Rightarrow> bool" where
  "program_ok (Some fs) (JObj kvs) =
     (case map_of kvs ''program'' of
        None \<Rightarrow> False
      | Some program \<Rightarrow>
          is_int program \<and>
          (case map_of fs (py_str program) of
             None \<Rightarrow> False
           | Some feature \<Rightarrow>
               contains_sub ''.Program.'' (f_name feature) \<and>
               (case map_of kvs ''options'' of
                  None \<Rightarrow> True
                | Some options \<Rightarrow>
                    (case py_iter options of
                       Inl e \<Rightarrow> False
                     | Inr items \<Rightarrow> list_all (option_resolves fs) items))))"
| "program_ok cat data = False"

text \<open>
  The acceptance condition for one record of a value-write batch, in the words of the
  spec: an integer-typed \<^verbatim>\<open>uid\<close> and a \<^verbatim>\<open>value\<close>, the string of the uid a key of the
  catalog, the access level \<^verbatim>\<open>readwrite\<close> or \<^verbatim>\<open>writeonly\<close>, an integer value whose string
  is a key of the enumeration if there is one, an integer value between the bounds if
  there is a range.
\<close>

fun claimed_ok :: "catalog \<Rightarrow> json \<Rightarrow> bool" where
  "claimed_ok fs (JObj kvs) =
     (case map_of kvs ''uid'' of
        None \<Rightarrow> False
      | Some uid \<Rightarrow>
          is_int uid \<and>
          (case map_of kvs ''value'' of
             None \<Rightarrow> False
           | Some v \<Rightarrow>
               (case map_of fs (py_str uid) of
                  None \<Rightarrow> False
                | Some feature \<Rightarrow>
                    (f_access feature = Some ''readwrite'' \<or> f_access feature = Some ''writeonly'')
                    \<and> (case f_values feature of
                         None \<Rightarrow> True
                       | Some vs \<Rightarrow> is_int v \<and> map_of vs (py_str v) \<noteq> None)
                    \<and> (case (f_min feature, f_max feature) of
                         (Some lo, Some hi) \<Rightarrow> is_int v \<and> lo \<le> int_of v \<and> int_of v \<le> hi
                       | other \<Rightarrow> True))))"
| "claimed_ok fs v = False"

text \<open>The same condition with the access level compared as the code compares it, after
  \<^verbatim>\<open>lower()\<close>.\<close>

fun feature_ok :: "catalog \<Rightarrow> json \<Rightarrow> bool" where
  "feature_ok fs (JObj kvs) =
     (case map_of kvs ''uid'' of
        None \<Rightarrow> False
      | Some uid \<Rightarrow>
          is_int uid \<and>
          (case map_of kvs ''value'' of
             None \<Rightarrow> False
           | Some v \<Rightarrow>
               (case map_of fs (py_str uid) of
                  None \<Rightarrow> False
                | Some feature \<Rightarrow>
                    (case f_access feature of
                       None \<Rightarrow> False
                     | Some acc \<Rightarrow> lower acc = ''readwrite'' \<or> lower acc = ''writeonly'')
                    \<and> (case f_values feature of
                         None \<Rightarrow> True
                       | Some vs \<Rightarrow> is_int v \<and> map_of vs (py_str v) \<noteq> None)
                    \<and> (case (f_min feature, f_max feature) of
                         (Some lo, Some hi) \<Rightarrow> is_int v \<and> lo \<le> int_of v \<and> int_of v \<le> hi
                       | other \<Rightarrow> True))))"
| "feature_ok fs v = False"

text \<open>A catalog in which every descriptor that has \<^verbatim>\<open>min\<close> has \<^verbatim>\<open>max\<close> too.\<close>

definition bounds_paired :: "catalog \<Rightarrow> bool" where
  "bounds_paired fs = list_all (\<lambda>kf. f_min (snd kf) = None \<or> f_max (snd kf) \<noteq> None) fs"

fun is_record :: "json \<Rightarrow> bool" where
  "is_record (JObj kvs) = True"
| "is_record v = False"

text \<open>A services-list response with the one record \<^verbatim>\<open>{"service": "ci", "version": 3}\<close>,
  and a device that has received it.\<close>

definition services_list_ci :: "(string \<times> json) list" where
  "services_list_ci =
     [(''sID'', JInt 77), (''msgID'', JInt 100), (''resource'', JStr ''/ci/services''),
      (''version'', JInt 1), (''action'', JStr ''RESPONSE''),
      (''data'', JArr [JObj [(''service'', JStr ''ci''), (''version'', JInt 3)]])]"

definition discovered_device :: device where
  "discovered_device =
     (example_device idle_socket)\<lparr>services_initialized := True, services := [(JStr ''ci'', JInt 3)]\<rparr>"

text \<open>The first message of a connection: the appliance's session 77 and message 7, with
  100 as the id our first message is to carry.\<close>

definition initial_values :: "(string \<times> json) list" where
  "initial_values =
     [(''sID'', JInt 77), (''msgID'', JInt 7), (''resource'', JStr ''/ei/initialValues''),
      (''version'', JInt 2), (''action'', JStr ''POST''),
      (''data'', JArr [JObj [(''edMsgID'', JInt 100)]])]"

text \<open>
  A caller that issues one \<^verbatim>\<open>get\<close> after the other on the same object and goes on when
  a call raises. A call is the tuple of its arguments.
\<close>

type_synonym call = "string \<times> json option \<times> string option \<times> json"

fun calls :: "call list \<Rightarrow> device \<Rightarrow> device" where
  "calls [] d = d"
| "calls (c # cs) d =
     calls cs (snd (get (fst c) (fst (snd c)) (fst (snd (snd c))) (snd (snd (snd c))) d))"

text \<open>The session ids and the message ids of a list of envelopes.\<close>

definition session_ids :: "json list \<Rightarrow> (error + json) list" where
  "session_ids msgs = map (\<lambda>msg. getitem_str msg ''sID'') msgs"

definition message_ids :: "json list \<Rightarrow> (error + json) list" where
  "message_ids msgs = map (\<lambda>msg. getitem_str msg ''msgID'') msgs"

text \<open>
  A step keeps a component of the object when the component is the same after the step
  as before, whatever the step returns or raises.
\<close>

definition keeps :: "(device \<Rightarrow> 'x) \<Rightarrow> 'a prog \<Rightarrow> bool" where
  "keeps f m = (\<forall>d. f (snd (m d)) = f d)"

text \<open>What the socket still has to deliver.\<close>

definition pending :: "device \<Rightarrow> rx_event list" where
  "pending d = rx (ws d)"

text \<open>A services-list response as \<^verbatim>\<open>handle_message\<close> recognises it: resource
  \<^verbatim>\<open>/ci/services\<close>, action \<^verbatim>\<open>RESPONSE\<close> or \<^verbatim>\<open>NOTIFY\<close>, no \<^verbatim>\<open>code\<close>.\<close>

fun is_services_list :: "rx_event \<Rightarrow> bool" where
  "is_services_list (RxFrame (Decodes (JObj kvs))) =
     (map_of kvs ''resource'' = Some (JStr ''/ci/services'')
      \<and> (map_of kvs ''action'' = Some (JStr ''RESPONSE'') \<or> map_of kvs ''action'' = Some (JStr ''NOTIFY''))
      \<and> map_of kvs ''code'' = None)"
| "is_services_list ev = False"

text \<open>
  A device that has been through a handshake before: services discovered, a service
  table, a token; its socket has nothing to deliver after the reconnect. And a device
  as \<^verbatim>\<open>__init__\<close> leaves it, whose socket delivers the initial values, an unrelated
  notification, a buffer that does not decode, and the services list.
\<close>

definition stale_device :: device where
  "stale_device =
     (example_device idle_socket)
       \<lparr>services_initialized := True, services := [(JStr ''iz'', JInt 9)], token := JStr ''b2xk''\<rparr>"

definition fresh_device :: device where
  "fresh_device =
     init (scripted_socket
             [RxFrame (Decodes (JObj initial_values)),
              RxFrame (Decodes (JObj [(''sID'', JInt 77), (''msgID'', JInt 8),
                                      (''resource'', JStr ''/ci/registeredDevices''),
                                      (''version'', JInt 1), (''action'', JStr ''NOTIFY'')])),
              RxFrame Undecodable,
              RxFrame (Decodes (JObj services_list_ci))] [])
          None ''oven'' (\<lambda>n. ''c2VjcmV0PQ=='')"

text \<open>The source of random tokens and how far it has been used.\<close>

definition entropy :: "device \<Rightarrow> (nat \<Rightarrow> string) \<times> nat" where
  "entropy d = (nonces d, nonces_used d)"

section \<open>Lemmas about the sequencing combinators\<close>

lemma bind_return [simp]: "bind (return x) f = f x"
  by (rule ext) (simp add: bind_def return_def)

lemma bind_raise [simp]: "bind (raise e) f = raise e"
  by (rule ext) (simp add: bind_def raise_def)

lemma bind_lift_Inr [simp]: "bind (lift (Inr x)) f = f x"
  by (rule ext) (simp add: bind_def lift_def)

lemma bind_lift_Inl [simp]: "bind (lift (Inl e)) f = raise e"
  by (rule ext) (simp add: bind_def lift_def raise_def)

lemma bind_print [simp]: "bind (print ev) f d = f () (d\<lparr>out := out d @ [ev]\<rparr>)"
  by (simp add: bind_def print_def)

lemma bind_modify [simp]: "bind (modify g) f d = f () (g d)"
  by (simp add: bind_def modify_def)

lemma bind_if_debug:
  "bind (\<lambda>d. if debug d then print ev d else return () d) f d =
     (if debug d then f () (d\<lparr>out := out d @ [ev]\<rparr>) else f () d)"
  by (simp add: bind_def print_def return_def)

lemma return_apply [simp]: "return x d = (Inr x, d)"
  by (simp add: return_def)

lemma raise_apply [simp]: "raise e d = (Inl e, d)"
  by (simp add: raise_def)

lemma map_of_in_keys: "map_of kvs k = Some v \<Longrightarrow> k \<in> fst ` set kvs"
  by (metis domI dom_map_of_conv_image_fst)

lemma map_of_not_in_keys: "map_of kvs k = None \<Longrightarrow> k \<notin> fst ` set kvs"
  by (metis domIff dom_map_of_conv_image_fst)

lemma and_then_Inr [simp]: "and_then (Inr x) f = f x"
  by (simp add: and_then_def)

lemma and_then_Inl [simp]: "and_then (Inl e) f = Inl e"
  by (simp add: and_then_def)

lemma and_then_eq_Inr: "and_then r f = Inr y \<longleftrightarrow> (\<exists>x. r = Inr x \<and> f x = Inr y)"
  by (cases r) simp_all

lemma for_each_Inr: "for_each f xs = Inr () \<longleftrightarrow> list_all (\<lambda>x. f x = Inr ()) xs"
  by (induction xs) (auto split: sum.splits)

lemma for_each_Inl: "for_each f xs = Inl e \<Longrightarrow> \<exists>x \<in> set xs. f x = Inl e"
  by (induction xs) (auto split: sum.splits)

section \<open>Lemmas about validation inside \<^verbatim>\<open>get\<close>\<close>

lemma resolve_version_shape:
  "\<exists>v' evs. resolve_version resource v d = (Inr v', d\<lparr>out := out d @ evs\<rparr>)"
proof (cases "services_initialized d \<and> length (split CHR ''/'' resource) > 1
              \<and> map_of (services d) (JStr (split CHR ''/'' resource ! 1)) = None")
  case True
  then have "resolve_version resource v d = (Inr v, d\<lparr>out := out d @ [LogServiceNotKnown]\<rparr>)"
    by (simp add: resolve_version_def Let_def)
  then show ?thesis by blast
next
  case False
  then have "\<exists>v'. resolve_version resource v d = (Inr v', d\<lparr>out := out d @ []\<rparr>)"
    by (auto simp: resolve_version_def Let_def split: option.splits)
  then show ?thesis by blast
qed

lemma test_feature_data_eq:
  "test_feature_data data d =
     (case locate_feature (features d) data of
        Inl e \<Rightarrow> (Inl e, d)
      | Inr found \<Rightarrow>
          (and_then (check_access (snd found) (fst found)) (\<lambda>u.
           and_then (check_values (snd found) data) (\<lambda>u.
           check_range (snd found) data)),
           d\<lparr>out := out d @ [LogProcessingFeature (f_name (snd found)) (fst found)]\<rparr>))"
  by (simp add: test_feature_data_def bind_def lift_def print_def split: sum.splits)

lemma test_feature_data_verdict:
  "fst (test_feature_data data d) = feature_verdict (features d) data"
  by (simp add: test_feature_data_eq feature_verdict_def split: sum.splits)

lemma test_feature_data_state:
  "snd (test_feature_data data d) = d \<or> (\<exists>ev. snd (test_feature_data data d) = d\<lparr>out := out d @ [ev]\<rparr>)"
  by (auto simp: test_feature_data_eq split: sum.splits)

lemma test_feature_shape:
  "\<exists>evs. snd (test_feature xs d) = d\<lparr>out := out d @ evs\<rparr>"
proof (induction xs arbitrary: d)
  case Nil
  have "snd (test_feature [] d) = d\<lparr>out := out d @ []\<rparr>" by simp
  then show ?case by blast
next
  case (Cons x xs)
  obtain r d1 where step: "test_feature_data x d = (r, d1)"
    by (cases "test_feature_data x d")
  have "\<exists>evs1. d1 = d\<lparr>out := out d @ evs1\<rparr>"
  proof -
    from test_feature_data_state [of x d] step
    have "d1 = d \<or> (\<exists>ev. d1 = d\<lparr>out := out d @ [ev]\<rparr>)" by simp
    then show ?thesis
    proof
      assume "d1 = d"
      then have "d1 = d\<lparr>out := out d @ []\<rparr>" by simp
      then show ?thesis by blast
    next
      assume "\<exists>ev. d1 = d\<lparr>out := out d @ [ev]\<rparr>"
      then show ?thesis by blast
    qed
  qed
  then obtain evs1 where d1: "d1 = d\<lparr>out := out d @ evs1\<rparr>" by blast
  show ?case
  proof (cases r)
    case (Inl e)
    with step d1 have "snd (test_feature (x # xs) d) = d\<lparr>out := out d @ evs1\<rparr>"
      by (simp add: bind_def)
    then show ?thesis by blast
  next
    case (Inr u)
    from Cons.IH [of d1] obtain evs where "snd (test_feature xs d1) = d1\<lparr>out := out d1 @ evs\<rparr>"
      by blast
    with step Inr d1 have "snd (test_feature (x # xs) d) = d\<lparr>out := out d @ (evs1 @ evs)\<rparr>"
      by (simp add: bind_def)
    then show ?thesis by blast
  qed
qed

lemma test_feature_verdict:
  "fst (test_feature xs d) = for_each (feature_verdict (features d)) xs"
proof (induction xs arbitrary: d)
  case Nil
  then show ?case by simp
next
  case (Cons x xs)
  obtain r d1 where step: "test_feature_data x d = (r, d1)"
    by (cases "test_feature_data x d")
  then have r: "r = feature_verdict (features d) x"
    using test_feature_data_verdict [of x d] by simp
  have "features d1 = features d"
    using step test_feature_data_state [of x d] by auto
  with Cons.IH [of d1] have "fst (test_feature xs d1) = for_each (feature_verdict (features d)) xs"
    by simp
  with step r show ?case by (simp add: bind_def split: sum.splits)
qed

lemma validate_shape:
  "\<exists>evs. snd (validate resource action xs d) = d\<lparr>out := out d @ evs\<rparr>"
proof (cases "action = ''POST'' \<and> resource = ''/ro/values''")
  case True
  with test_feature_shape [of xs d] show ?thesis by (simp add: validate_def)
next
  case False
  then have "snd (validate resource action xs d) = d\<lparr>out := out d @ []\<rparr>"
    by (simp add: validate_def lift_def)
  then show ?thesis by blast
qed

lemma validate_verdict:
  "features d' = features d \<Longrightarrow>
     fst (validate resource action xs d') = fst (validate resource action xs d)"
  by (simp add: validate_def lift_def test_feature_verdict)

lemma sent_ws_send: "sent (snd (ws_send msg w)) = sent w @ [msg]"
  by (simp split: list.splits bool.splits)

lemma rx_ws_send: "rx (snd (ws_send msg w)) = rx w"
  by (simp split: list.splits bool.splits)

lemma ws_send_raises: "fst (ws_send msg w) = Inl e \<Longrightarrow> is_Exception e"
  by (auto split: list.splits bool.splits)

declare ws_send.simps [simp del]

lemma try_send_eq:
  "try_send msg d =
     (Inr (), d\<lparr>ws := snd (ws_send msg (ws d)),
                 out := out d @ (case fst (ws_send msg (ws d)) of
                                   Inl e \<Rightarrow> [LogFailedToSend e msg] | Inr u \<Rightarrow> [])\<rparr>)"
proof (cases "ws_send msg (ws d)")
  case (Pair r w)
  show ?thesis
  proof (cases r)
    case (Inl e)
    with Pair ws_send_raises [of msg "ws d" e] have "is_Exception e" by simp
    with Pair Inl show ?thesis by (simp add: try_send_def send_def print_def)
  next
    case (Inr u)
    with Pair show ?thesis by (simp add: try_send_def send_def)
  qed
qed

lemma get_rejected:
  assumes payload: "data \<noteq> JNull"
    and rejected: "fst (validate resource (action_or_default action_arg) (as_list data) d) = Inl e"
  shows "fst (get resource version_arg action_arg data d) = Inl e
         \<and> ws (snd (get resource version_arg action_arg data d)) = ws d
         \<and> session (snd (get resource version_arg action_arg data d)) = session d"
proof -
  obtain v' evs where rv:
    "resolve_version resource (version_or_default version_arg) d = (Inr v', d\<lparr>out := out d @ evs\<rparr>)"
    using resolve_version_shape by blast
  let ?d1 = "d\<lparr>out := out d @ evs\<rparr>"
  let ?a = "action_or_default action_arg"
  obtain r d2 where val: "validate resource ?a (as_list data) ?d1 = (r, d2)"
    by (cases "validate resource ?a (as_list data) ?d1")
  have "r = Inl e"
    using val rejected validate_verdict [of ?d1 d resource ?a "as_list data"] by simp
  moreover obtain evs2 where "d2 = ?d1\<lparr>out := out ?d1 @ evs2\<rparr>"
    using val validate_shape [of resource ?a "as_list data" ?d1] by auto
  ultimately have "get resource version_arg action_arg data d = (Inl e, d\<lparr>out := out d @ evs @ evs2\<rparr>)"
    using payload rv val
    by (simp add: get_def bind_def Let_def version_or_default_def action_or_default_def)
  then show ?thesis by (simp add: session_def)
qed

lemma get_accepted:
  assumes ok: "data = JNull \<or> fst (validate resource (action_or_default action_arg) (as_list data) d) = Inr ()"
    and rv: "fst (resolve_version resource (version_or_default version_arg) d) = Inr version"
  shows "fst (get resource version_arg action_arg data d)
           = (case iadd1 (tx_msg_id d) of Inl e \<Rightarrow> Inl e | Inr n \<Rightarrow> Inr ())"
    and "sent (ws (snd (get resource version_arg action_arg data d)))
           = sent (ws d) @ [envelope (session_id d) (tx_msg_id d) resource version
                                     (action_or_default action_arg) data]"
    and "tx_msg_id (snd (get resource version_arg action_arg data d))
           = (case iadd1 (tx_msg_id d) of Inl e \<Rightarrow> tx_msg_id d | Inr n \<Rightarrow> n)"
    and "session_id (snd (get resource version_arg action_arg data d)) = session_id d"
    and "services_initialized (snd (get resource version_arg action_arg data d)) = services_initialized d"
    and "services (snd (get resource version_arg action_arg data d)) = services d"
    and "token (snd (get resource version_arg action_arg data d)) = token d"
    and "rx (ws (snd (get resource version_arg action_arg data d))) = rx (ws d)"
proof -
  obtain v' evs where rv':
    "resolve_version resource (version_or_default version_arg) d = (Inr v', d\<lparr>out := out d @ evs\<rparr>)"
    using resolve_version_shape by blast
  with rv have v': "v' = version" by simp
  let ?d1 = "d\<lparr>out := out d @ evs\<rparr>"
  let ?a = "action_or_default action_arg"
  let ?msg = "envelope (session_id d) (tx_msg_id d) resource version ?a data"
  have "\<exists>evs2. get resource version_arg action_arg data d =
          bind (try_send ?msg) (\<lambda>u. increment_tx_msg_id) (d\<lparr>out := out d @ evs2\<rparr>)"
  proof (cases "data = JNull")
    case True
    with rv' v' have "get resource version_arg action_arg data d =
          bind (try_send ?msg) (\<lambda>u. increment_tx_msg_id) ?d1"
      by (simp add: get_def bind_def Let_def version_or_default_def action_or_default_def envelope_def)
    then show ?thesis by blast
  next
    case False
    obtain r d2 where val: "validate resource ?a (as_list data) ?d1 = (r, d2)"
      by (cases "validate resource ?a (as_list data) ?d1")
    have "r = Inr ()"
      using val ok False validate_verdict [of ?d1 d resource ?a "as_list data"] by simp
    moreover obtain evs2 where "d2 = ?d1\<lparr>out := out ?d1 @ evs2\<rparr>"
      using val validate_shape [of resource ?a "as_list data" ?d1] by auto
    ultimately have "get resource version_arg action_arg data d =
          bind (try_send ?msg) (\<lambda>u. increment_tx_msg_id) (d\<lparr>out := out d @ evs @ evs2\<rparr>)"
      using False rv' v' val
      by (simp add: get_def bind_def Let_def version_or_default_def action_or_default_def envelope_def)
    then show ?thesis by blast
  qed
  then obtain evs2 where eq: "get resource version_arg action_arg data d =
          bind (try_send ?msg) (\<lambda>u. increment_tx_msg_id) (d\<lparr>out := out d @ evs2\<rparr>)"
    by blast
  show "fst (get resource version_arg action_arg data d)
           = (case iadd1 (tx_msg_id d) of Inl e \<Rightarrow> Inl e | Inr n \<Rightarrow> Inr ())"
    by (simp add: eq bind_def try_send_eq increment_tx_msg_id_def split: sum.splits)
  show "sent (ws (snd (get resource version_arg action_arg data d)))
           = sent (ws d) @ [?msg]"
    by (simp add: eq bind_def try_send_eq increment_tx_msg_id_def sent_ws_send split: sum.splits)
  show "tx_msg_id (snd (get resource version_arg action_arg data d))
           = (case iadd1 (tx_msg_id d) of Inl e \<Rightarrow> tx_msg_id d | Inr n \<Rightarrow> n)"
    by (simp add: eq bind_def try_send_eq increment_tx_msg_id_def split: sum.splits)
  show "session_id (snd (get resource version_arg action_arg data d)) = session_id d"
    by (simp add: eq bind_def try_send_eq increment_tx_msg_id_def split: sum.splits)
  show "services_initialized (snd (get resource version_arg action_arg data d)) = services_initialized d"
    by (simp add: eq bind_def try_send_eq increment_tx_msg_id_def split: sum.splits)
  show "services (snd (get resource version_arg action_arg data d)) = services d"
    by (simp add: eq bind_def try_send_eq increment_tx_msg_id_def split: sum.splits)
  show "token (snd (get resource version_arg action_arg data d)) = token d"
    by (simp add: eq bind_def try_send_eq increment_tx_msg_id_def split: sum.splits)
  show "rx (ws (snd (get resource version_arg action_arg data d))) = rx (ws d)"
    by (simp add: eq bind_def try_send_eq increment_tx_msg_id_def rx_ws_send split: sum.splits)
qed

section \<open>Lemmas about the program validation\<close>

lemma in_keys_iff: "k \<in> fst ` set kvs \<longleftrightarrow> map_of kvs k \<noteq> None"
  by (simp add: map_of_eq_None_iff)

lemma test_option_iff: "test_option fs opt = Inr () \<longleftrightarrow> option_resolves fs opt"
  by (cases opt) (auto simp: test_option_def split: option.splits)

lemma test_options_iff:
  "and_then (py_iter options) (for_each (test_option fs)) = Inr ()
     \<longleftrightarrow> (case py_iter options of Inl e \<Rightarrow> False | Inr items \<Rightarrow> list_all (option_resolves fs) items)"
  by (cases "py_iter options") (simp_all add: for_each_Inr test_option_iff)

lemma test_program_iff: "test_program cat data = Inr () \<longleftrightarrow> program_ok cat data"
proof (cases data)
  case (JObj kvs)
  show ?thesis
  proof (cases "map_of kvs ''program''")
    case None
    with JObj show ?thesis
      by (cases cat) (simp_all add: test_program_def in_keys_iff)
  next
    case program: (Some program)
    show ?thesis
    proof (cases cat)
      case None
      with JObj program show ?thesis
        by (simp add: test_program_def in_keys_iff Let_def)
    next
      case (Some fs)
      show ?thesis
      proof (cases "map_of fs (py_str program)")
        case None
        with JObj program Some show ?thesis
          by (simp add: test_program_def in_keys_iff Let_def)
      next
        case feature: (Some feature)
        show ?thesis
        proof (cases "map_of kvs ''options''")
          case None
          with JObj program Some feature show ?thesis
            by (simp add: test_program_def in_keys_iff Let_def)
        next
          case options: (Some options)
          with JObj program Some feature show ?thesis
            by (simp add: test_program_def in_keys_iff Let_def test_options_iff)
        qed
      qed
    qed
  qed
next
  case JNull
  then show ?thesis by (cases cat) (simp_all add: test_program_def)
next
  case (JBool b)
  then show ?thesis by (cases cat) (simp_all add: test_program_def)
next
  case (JInt i)
  then show ?thesis by (cases cat) (simp_all add: test_program_def)
next
  case (JStr s)
  then show ?thesis by (cases cat) (simp_all add: test_program_def)
next
  case (JArr xs)
  then show ?thesis by (cases cat) (simp_all add: test_program_def)
qed

section \<open>Lemmas about the value-write validation\<close>

lemma bounds_pairedD:
  "bounds_paired fs \<Longrightarrow> map_of fs k = Some f \<Longrightarrow> f_min f = Some lo \<Longrightarrow> \<exists>hi. f_max f = Some hi"
  by (auto simp: bounds_paired_def list_all_iff dest!: map_of_SomeD)

lemma check_access_iff:
  "check_access f uid = Inr ()
     \<longleftrightarrow> (case f_access f of None \<Rightarrow> False
                            | Some acc \<Rightarrow> lower acc = ''readwrite'' \<or> lower acc = ''writeonly'')"
  by (auto simp: check_access_def Let_def split: option.splits)

lemma check_values_iff:
  "map_of kvs ''value'' = Some v \<Longrightarrow>
   check_values f (JObj kvs) = Inr ()
     \<longleftrightarrow> (case f_values f of None \<Rightarrow> True | Some vs \<Rightarrow> is_int v \<and> map_of vs (py_str v) \<noteq> None)"
  by (auto simp: check_values_def split: option.splits)

lemma check_range_iff:
  "map_of kvs ''value'' = Some v \<Longrightarrow> f_min f = None \<or> f_max f \<noteq> None \<Longrightarrow>
   check_range f (JObj kvs) = Inr ()
     \<longleftrightarrow> (case (f_min f, f_max f) of
            (Some lo, Some hi) \<Rightarrow> is_int v \<and> lo \<le> int_of v \<and> int_of v \<le> hi
          | other \<Rightarrow> True)"
  by (auto simp: check_range_def split: option.splits)

lemma checks_iff:
  "and_then (check_access f uid) (\<lambda>u. and_then (check_values f data) (\<lambda>u. check_range f data)) = Inr ()
    \<longleftrightarrow> check_access f uid = Inr () \<and> check_values f data = Inr () \<and> check_range f data = Inr ()"
  by (cases "check_access f uid"; cases "check_values f data") simp_all

lemma locate_feature_record:
  "locate_feature (Some fs) (JObj kvs) =
     (case map_of kvs ''uid'' of
        None \<Rightarrow> Inl (Exception ''Unable to configure appliance. UID is required.'')
      | Some uid \<Rightarrow>
          if \<not> is_int uid then Inl (Exception ''Unable to configure appliance. UID must be an integer.'')
          else if map_of kvs ''value'' = None
          then Inl (Exception ''Unable to configure appliance. Value is required.'')
          else (case map_of fs (py_str uid) of
                  None \<Rightarrow> Inl (Exception (''Unable to configure appliance. UID '' @ py_str uid @ '' is not valid.''))
                | Some feature \<Rightarrow> Inr (py_str uid, feature)))"
  by (cases "map_of kvs ''uid''"; cases "map_of kvs ''value''"; cases "map_of fs (py_str (the (map_of kvs ''uid'')))")
     (simp_all add: locate_feature_def in_keys_iff Let_def)

lemma feature_verdict_iff:
  assumes "bounds_paired fs"
  shows "feature_verdict (Some fs) data = Inr () \<longleftrightarrow> feature_ok fs data"
proof (cases data)
  case (JObj kvs)
  show ?thesis
  proof (cases "locate_feature (Some fs) (JObj kvs)")
    case (Inl e)
    then show ?thesis
      using JObj by (auto simp: feature_verdict_def locate_feature_record split: option.splits if_splits)
  next
    case (Inr found)
    then obtain uid v feature where uid: "map_of kvs ''uid'' = Some uid" "is_int uid"
      and v: "map_of kvs ''value'' = Some v"
      and feature: "map_of fs (py_str uid) = Some feature"
      and found: "found = (py_str uid, feature)"
      by (auto simp: locate_feature_record split: option.splits if_splits)
    from assms feature have paired: "f_min feature = None \<or> f_max feature \<noteq> None"
      using bounds_pairedD by fastforce
    show ?thesis
      using JObj Inr uid v feature found
      by (simp add: feature_verdict_def checks_iff check_access_iff check_values_iff [OF v]
          check_range_iff [OF v paired])
  qed
qed (simp_all add: feature_verdict_def locate_feature_def)

lemma checks_exception:
  assumes "map_of kvs ''value'' = Some v" and "f_min f = None \<or> f_max f \<noteq> None"
  shows "and_then (check_access f uid) (\<lambda>u. and_then (check_values f (JObj kvs)) (\<lambda>u. check_range f (JObj kvs))) = Inr ()
         \<or> (\<exists>reason. and_then (check_access f uid) (\<lambda>u. and_then (check_values f (JObj kvs)) (\<lambda>u. check_range f (JObj kvs))) = Inl (Exception reason))"
proof -
  have a: "check_access f uid = Inr () \<or> (\<exists>reason. check_access f uid = Inl (Exception reason))"
    by (auto simp: check_access_def Let_def split: option.splits)
  have b: "check_values f (JObj kvs) = Inr () \<or> (\<exists>reason. check_values f (JObj kvs) = Inl (Exception reason))"
    using assms(1) by (auto simp: check_values_def split: option.splits)
  have c: "check_range f (JObj kvs) = Inr () \<or> (\<exists>reason. check_range f (JObj kvs) = Inl (Exception reason))"
    using assms by (auto simp: check_range_def split: option.splits)
  from a b c show ?thesis by auto
qed

lemma feature_verdict_exception:
  assumes "bounds_paired fs"
  shows "feature_verdict (Some fs) (JObj kvs) = Inr ()
         \<or> (\<exists>reason. feature_verdict (Some fs) (JObj kvs) = Inl (Exception reason))"
proof (cases "locate_feature (Some fs) (JObj kvs)")
  case (Inl e)
  then show ?thesis
    by (auto simp: feature_verdict_def locate_feature_record split: option.splits if_splits)
next
  case (Inr found)
  then obtain uid v feature where v: "map_of kvs ''value'' = Some v"
    and feature: "map_of fs (py_str uid) = Some feature"
    and found: "found = (py_str uid, feature)"
    by (auto simp: locate_feature_record split: option.splits if_splits)
  from assms feature have paired: "f_min feature = None \<or> f_max feature \<noteq> None"
    using bounds_pairedD by fastforce
  from checks_exception [OF v paired, of "py_str uid"] Inr found
  show ?thesis by (simp add: feature_verdict_def)
qed

section \<open>Lemmas about names and the result dictionary\<close>

lemma digit_no_dot: "n < 10 \<Longrightarrow> digit n \<noteq> CHR ''.''"
proof -
  assume "n < 10"
  then have "n \<in> {0, 1, 2, 3, 4, 5, 6, 7, 8, 9}" by auto
  then show ?thesis by (auto simp: digit_def)
qed

lemma str_nat_no_dot: "CHR ''.'' \<notin> set (str_nat n)"
proof (induction n rule: str_nat.induct)
  case (1 n)
  show ?case
  proof (cases "n < 10")
    case True
    then show ?thesis
      using digit_no_dot [of n] by (subst str_nat.simps) auto
  next
    case False
    with "1.IH" have "CHR ''.'' \<notin> set (str_nat (n div 10))" by simp
    moreover have "digit (n mod 10) \<noteq> CHR ''.''" by (rule digit_no_dot) simp
    ultimately show ?thesis using False by (subst str_nat.simps) auto
  qed
qed

lemma py_str_int_no_dot: "is_int uid \<Longrightarrow> CHR ''.'' \<notin> set (py_str uid)"
  by (cases uid) (auto simp: str_int_def str_nat_no_dot)

lemma trim_name_no_dot: "CHR ''.'' \<notin> set s \<Longrightarrow> trim_name s = s"
  by (auto simp: trim_name_def Let_def dest: set_takeWhileD)

lemma trim_name_one_line:
  assumes "CHR 0x0A \<notin> set s"
  shows "trim_name s = rev (takeWhile (\<lambda>c. c \<noteq> CHR ''.'') (rev s))"
proof (cases "CHR ''.'' \<in> set s")
  case False
  then have "takeWhile (\<lambda>c. c \<noteq> CHR ''.'') (rev s) = rev s"
    by auto
  then have "rev (takeWhile (\<lambda>c. c \<noteq> CHR ''.'') (rev s)) = s"
    by (simp only: rev_rev_ident)
  moreover from False have "trim_name s = s" by (rule trim_name_no_dot)
  ultimately show ?thesis by simp
next
  case True
  from assms have line: "takeWhile (\<lambda>c. c \<noteq> CHR 0x0A) s = s"
    by auto
  let ?tail = "takeWhile (\<lambda>c. c \<noteq> CHR ''.'') (rev s)"
  have "rev ?tail = rev (take (length ?tail) (rev s))"
    by (simp add: takeWhile_eq_take [symmetric])
  also have "\<dots> = drop (length s - length ?tail) s"
    by (simp add: rev_take)
  finally have tail: "rev ?tail = drop (length s - length ?tail) s" .
  have "trim_name s = drop (length s - length ?tail) s"
    unfolding trim_name_def line using True by simp
  with tail show ?thesis by simp
qed

lemma map_of_dict_set: "map_of (dict_set k v r) = (map_of r)(k \<mapsto> v)"
  by (induction r) (auto simp: fun_eq_iff)

lemma map_of_fold_dict_set:
  "map_of (fold (\<lambda>e. dict_set (fst e) (snd e)) es acc) = map_of (rev es @ acc)"
proof (induction es arbitrary: acc)
  case Nil
  then show ?case by simp
next
  case (Cons e es)
  have "map_of (fold (\<lambda>e. dict_set (fst e) (snd e)) (e # es) acc)
          = map_of (rev es @ dict_set (fst e) (snd e) acc)"
    by (simp add: Cons.IH)
  also have "\<dots> = map_of (rev (e # es) @ acc)"
    by (cases e) (simp add: map_of_dict_set fun_eq_iff map_add_def split: option.splits)
  finally show ?case .
qed

lemma parse_loop_entries:
  "list_all2 (\<lambda>msg e. parse_value fs msg = Inr e) msgs es \<Longrightarrow>
     parse_loop fs msgs acc = Inr (fold (\<lambda>e. dict_set (fst e) (snd e)) es acc)"
proof (induction msgs arbitrary: es acc)
  case Nil
  then show ?case by simp
next
  case (Cons msg msgs)
  from Cons.prems obtain e es' where es: "es = e # es'" and e: "parse_value fs msg = Inr e"
    and rest: "list_all2 (\<lambda>msg e. parse_value fs msg = Inr e) msgs es'"
    by (auto simp: list_all2_Cons1)
  from Cons.IH [OF rest] e es show ?case by (cases e) simp
qed

section \<open>Lemmas about the version and the printed lines of \<^verbatim>\<open>get\<close>\<close>

lemma resolve_version_known:
  "services_initialized d \<Longrightarrow> split CHR ''/'' resource = a # service # rest \<Longrightarrow>
   map_of (services d) (JStr service) = Some v \<Longrightarrow>
   resolve_version resource v0 d = (Inr v, d)"
  by (simp add: resolve_version_def)

lemma resolve_version_unknown:
  "services_initialized d \<Longrightarrow> split CHR ''/'' resource = a # service # rest \<Longrightarrow>
   map_of (services d) (JStr service) = None \<Longrightarrow>
   resolve_version resource v0 d = (Inr v0, d\<lparr>out := out d @ [LogServiceNotKnown]\<rparr>)"
  by (simp add: resolve_version_def)

lemma resolve_version_undiscovered:
  "\<not> services_initialized d \<Longrightarrow> resolve_version resource v0 d = (Inr v0, d)"
  by (simp add: resolve_version_def)

lemma get_out:
  "\<exists>evs. out (snd (get resource version_arg action_arg data d))
           = out (snd (resolve_version resource (version_or_default version_arg) d)) @ evs"
proof -
  obtain v' evs where rv:
    "resolve_version resource (version_or_default version_arg) d = (Inr v', d\<lparr>out := out d @ evs\<rparr>)"
    using resolve_version_shape by blast
  let ?d1 = "d\<lparr>out := out d @ evs\<rparr>"
  let ?a = "action_or_default action_arg"
  have tail: "\<exists>evs'. out (snd (bind (try_send msg) (\<lambda>u. increment_tx_msg_id) d')) = out d' @ evs'" for msg d'
    by (simp add: bind_def try_send_eq increment_tx_msg_id_def split: sum.splits)
  show ?thesis
  proof (cases "data = JNull")
    case True
    with rv have "get resource version_arg action_arg data d =
        bind (try_send (envelope (session_id d) (tx_msg_id d) resource v' ?a data))
             (\<lambda>u. increment_tx_msg_id) ?d1"
      by (simp add: get_def bind_def Let_def version_or_default_def action_or_default_def envelope_def)
    with tail [of "envelope (session_id d) (tx_msg_id d) resource v' ?a data" ?d1] rv
    show ?thesis by simp
  next
    case False
    obtain r d2 where val: "validate resource ?a (as_list data) ?d1 = (r, d2)"
      by (cases "validate resource ?a (as_list data) ?d1")
    obtain evs2 where d2: "d2 = ?d1\<lparr>out := out ?d1 @ evs2\<rparr>"
      using val validate_shape [of resource ?a "as_list data" ?d1] by auto
    show ?thesis
    proof (cases r)
      case (Inl e)
      with False rv val d2 have "get resource version_arg action_arg data d = (Inl e, d2)"
        by (simp add: get_def bind_def Let_def version_or_default_def action_or_default_def)
      with d2 rv show ?thesis by simp
    next
      case (Inr u)
      with False rv val have "get resource version_arg action_arg data d =
          bind (try_send (envelope (session_id d) (tx_msg_id d) resource v' ?a data))
               (\<lambda>u. increment_tx_msg_id) d2"
        using d2 by (simp add: get_def bind_def Let_def version_or_default_def action_or_default_def envelope_def)
      with tail [of "envelope (session_id d) (tx_msg_id d) resource v' ?a data" d2] rv d2
      show ?thesis by auto
    qed
  qed
qed

lemma key_eq_JStr [simp]: "key_eq a (JStr k) = (a = JStr k)"
  by (cases a) simp_all

lemma map_of_services_set: "map_of (services_set (JStr k) v s) (JStr k) = Some v"
  by (induction s) auto

section \<open>Lemmas about message ids\<close>

lemma send_eq: "send msg d = (fst (ws_send msg (ws d)), d\<lparr>ws := snd (ws_send msg (ws d))\<rparr>)"
  by (simp add: send_def split: prod.splits)

lemma envelope_ids [simp]:
  "getitem_str (envelope sid mid resource version action data) ''sID'' = Inr sid"
  "getitem_str (envelope sid mid resource version action data) ''msgID'' = Inr mid"
  by (simp_all add: envelope_def)

lemma get_step:
  assumes "tx_msg_id d = JInt n"
  shows "(\<exists>version. fst (get resource version_arg action_arg data d) = Inr ()
            \<and> tx_msg_id (snd (get resource version_arg action_arg data d)) = JInt (n + 1)
            \<and> session_id (snd (get resource version_arg action_arg data d)) = session_id d
            \<and> sent (ws (snd (get resource version_arg action_arg data d)))
                = sent (ws d) @ [envelope (session_id d) (JInt n) resource version
                                          (action_or_default action_arg) data])
         \<or> (\<exists>e. fst (get resource version_arg action_arg data d) = Inl e
            \<and> tx_msg_id (snd (get resource version_arg action_arg data d)) = JInt n
            \<and> session_id (snd (get resource version_arg action_arg data d)) = session_id d
            \<and> sent (ws (snd (get resource version_arg action_arg data d))) = sent (ws d))"
proof (cases "data = JNull \<or> fst (validate resource (action_or_default action_arg) (as_list data) d) = Inr ()")
  case True
  obtain version where v: "fst (resolve_version resource (version_or_default version_arg) d) = Inr version"
    using resolve_version_shape [of resource "version_or_default version_arg" d] by auto
  from get_accepted(1,2,3,4) [OF True v] assms show ?thesis by auto
next
  case False
  then have payload: "data \<noteq> JNull" by blast
  from False obtain e where "fst (validate resource (action_or_default action_arg) (as_list data) d) = Inl e"
    by (cases "fst (validate resource (action_or_default action_arg) (as_list data) d)") auto
  from get_rejected [OF payload this, of version_arg] assms
  show ?thesis by (auto simp: session_def)
qed

lemma calls_ids:
  "tx_msg_id d = JInt n \<Longrightarrow>
   \<exists>k. tx_msg_id (calls cs d) = JInt (n + int k)
       \<and> session_id (calls cs d) = session_id d
       \<and> message_ids (sent (ws (calls cs d)))
           = message_ids (sent (ws d)) @ map (\<lambda>i. Inr (JInt (n + int i))) [0..<k]
       \<and> session_ids (sent (ws (calls cs d)))
           = session_ids (sent (ws d)) @ replicate k (Inr (session_id d))"
proof (induction cs arbitrary: d n)
  case Nil
  have "tx_msg_id (calls [] d) = JInt (n + int 0)
       \<and> session_id (calls [] d) = session_id d
       \<and> message_ids (sent (ws (calls [] d)))
           = message_ids (sent (ws d)) @ map (\<lambda>i. Inr (JInt (n + int i))) [0..<0]
       \<and> session_ids (sent (ws (calls [] d)))
           = session_ids (sent (ws d)) @ replicate 0 (Inr (session_id d))"
    using Nil by simp
  then show ?case by blast
next
  case (Cons c cs)
  let ?d1 = "snd (get (fst c) (fst (snd c)) (fst (snd (snd c))) (snd (snd (snd c))) d)"
  from get_step [OF Cons.prems, of "fst c" "fst (snd c)" "fst (snd (snd c))" "snd (snd (snd c))"]
  show ?case
  proof
    assume "\<exists>version. fst (get (fst c) (fst (snd c)) (fst (snd (snd c))) (snd (snd (snd c))) d) = Inr ()
            \<and> tx_msg_id ?d1 = JInt (n + 1)
            \<and> session_id ?d1 = session_id d
            \<and> sent (ws ?d1)
                = sent (ws d) @ [envelope (session_id d) (JInt n) (fst c) version
                                          (action_or_default (fst (snd (snd c)))) (snd (snd (snd c)))]"
    then obtain version where tx: "tx_msg_id ?d1 = JInt (n + 1)"
      and sid: "session_id ?d1 = session_id d"
      and sent: "sent (ws ?d1)
                = sent (ws d) @ [envelope (session_id d) (JInt n) (fst c) version
                                          (action_or_default (fst (snd (snd c)))) (snd (snd (snd c)))]"
      by blast
    from Cons.IH [OF tx] obtain k where k: "tx_msg_id (calls cs ?d1) = JInt (n + 1 + int k)"
      "session_id (calls cs ?d1) = session_id ?d1"
      "message_ids (sent (ws (calls cs ?d1)))
         = message_ids (sent (ws ?d1)) @ map (\<lambda>i. Inr (JInt (n + 1 + int i))) [0..<k]"
      "session_ids (sent (ws (calls cs ?d1)))
         = session_ids (sent (ws ?d1)) @ replicate k (Inr (session_id ?d1))"
      by blast
    have shift: "map (\<lambda>i. Inr (JInt (n + int i))) [0..<Suc k]
        = (Inr (JInt n) :: error + json) # map (\<lambda>i. Inr (JInt (n + 1 + int i))) [0..<k]"
      by (simp add: upt_conv_Cons map_Suc_upt [symmetric] del: upt_Suc)
    have "tx_msg_id (calls (c # cs) d) = JInt (n + int (Suc k))
       \<and> session_id (calls (c # cs) d) = session_id d
       \<and> message_ids (sent (ws (calls (c # cs) d)))
           = message_ids (sent (ws d)) @ map (\<lambda>i. Inr (JInt (n + int i))) [0..<Suc k]
       \<and> session_ids (sent (ws (calls (c # cs) d)))
           = session_ids (sent (ws d)) @ replicate (Suc k) (Inr (session_id d))"
      unfolding shift using k sid sent
      by (simp add: message_ids_def session_ids_def)
    then show ?thesis by blast
  next
    assume "\<exists>e. fst (get (fst c) (fst (snd c)) (fst (snd (snd c))) (snd (snd (snd c))) d) = Inl e
            \<and> tx_msg_id ?d1 = JInt n
            \<and> session_id ?d1 = session_id d
            \<and> sent (ws ?d1) = sent (ws d)"
    then have tx: "tx_msg_id ?d1 = JInt n" and sid: "session_id ?d1 = session_id d"
      and sent: "sent (ws ?d1) = sent (ws d)"
      by blast+
    from Cons.IH [OF tx] sid sent show ?thesis by simp
  qed
qed

section \<open>Lemmas about what the methods leave unchanged\<close>

lemma keepsD: "keeps f m \<Longrightarrow> f (snd (m d)) = f d"
  by (simp add: keeps_def)

lemma keeps_Pair [simp]: "keeps f (Pair r)"
  by (simp add: keeps_def)

lemma keeps_return [simp]: "keeps f (return x)"
  by (simp add: keeps_def)

lemma keeps_raise [simp]: "keeps f (raise e)"
  by (simp add: keeps_def)

lemma keeps_lift [simp]: "keeps f (lift r)"
  by (simp add: keeps_def lift_def)

lemma keeps_lift_reads [simp]: "keeps f (\<lambda>d. lift (g d) d)"
  by (simp add: keeps_def lift_def)

lemma keeps_bind [simp]: "keeps f m \<Longrightarrow> (\<And>x. keeps f (g x)) \<Longrightarrow> keeps f (bind m g)"
  by (auto simp: keeps_def bind_def split: prod.splits sum.splits) (metis snd_conv)+

lemma keeps_if_debug [simp]:
  "(\<And>d. f (d\<lparr>out := out d @ [ev]\<rparr>) = f d) \<Longrightarrow>
   keeps f (\<lambda>d. if debug d then print ev d else return () d)"
  by (simp add: keeps_def print_def)

lemma keeps_print_flag [simp]: "keeps services_initialized (print ev)"
  by (simp add: keeps_def print_def)

lemma keeps_print_pending [simp]: "keeps pending (print ev)"
  by (simp add: keeps_def print_def pending_def)

lemma keeps_send_flag [simp]: "keeps services_initialized (send msg)"
  by (simp add: keeps_def send_eq)

lemma keeps_send_pending [simp]: "keeps pending (send msg)"
  by (simp add: keeps_def send_eq pending_def rx_ws_send)

lemma keeps_reply_flag [simp]: "keeps services_initialized (reply msg rep)"
  by (simp add: reply_def)

lemma keeps_reply_pending [simp]: "keeps pending (reply msg rep)"
  by (simp add: reply_def)

lemma keeps_reply_reads_flag: "keeps services_initialized (\<lambda>d. reply msg (g d) d)"
  using keeps_reply_flag by (simp add: keeps_def)

lemma keeps_reply_reads_pending: "keeps pending (\<lambda>d. reply msg (g d) d)"
  using keeps_reply_pending by (simp add: keeps_def)

lemma keeps_modify: "(\<And>d. f (g d) = f d) \<Longrightarrow> keeps f (modify g)"
  by (simp add: keeps_def modify_def)

lemma keeps_if: "keeps f a \<Longrightarrow> keeps f b \<Longrightarrow> keeps f (if c then a else b)"
  by simp

lemmas keeps_intros =
  keeps_if keeps_bind keeps_lift keeps_lift_reads keeps_return keeps_raise keeps_modify
  keeps_if_debug

lemma keeps_handle_post_flag: "keeps services_initialized (handle_post msg resource)"
  unfolding handle_post_def
  by (intro keeps_intros keeps_print_flag keeps_reply_reads_flag) simp_all

lemma keeps_handle_post_pending: "keeps pending (handle_post msg resource)"
  unfolding handle_post_def
  by (intro keeps_intros keeps_print_pending keeps_reply_reads_pending) (simp_all add: pending_def)

lemma keeps_add_services_pending: "keeps pending (add_services items)"
proof (induction items)
  case Nil
  show ?case by (simp only: add_services.simps keeps_return)
next
  case (Cons service rest)
  then show ?case
    by (simp only: add_services.simps) (intro keeps_intros, simp_all add: pending_def)
qed

lemma keeps_handle_response_pending: "keeps pending (handle_response msg resource)"
  unfolding handle_response_def
  by (intro keeps_intros keeps_print_pending keeps_add_services_pending) (simp_all add: pending_def)

lemma keeps_handle_message_pending: "keeps pending (handle_message buf)"
  unfolding handle_message_def
  by (intro keeps_intros keeps_print_pending keeps_handle_post_pending keeps_handle_response_pending)
     (simp_all add: pending_def)

lemma keeps_other_response_flag:
  assumes "resource \<noteq> JStr ''/ci/services''"
  shows "keeps services_initialized (handle_response msg resource)"
proof -
  have "handle_response msg resource =
     (if resource = JStr ''/iz/info'' \<or> resource = JStr ''/ci/info'' then
        bind (lift (has_data msg)) (\<lambda>some.
        if some then lift (first_data msg) else return (JObj []))
      else if resource = JStr ''/ro/descriptionChange''
              \<or> resource = JStr ''/ro/allDescriptionChanges'' then return (JObj [])
      else if resource = JStr ''/ni/info'' then
        bind (lift (has_data msg)) (\<lambda>some.
        if some then lift (first_data msg) else return (JObj []))
      else if resource = JStr ''/ni/config'' then return (JObj [])
      else if resource = JStr ''/ro/allMandatoryValues'' \<or> resource = JStr ''/ro/values'' then
        bind (lift (contains_str ''data'' msg)) (\<lambda>present.
        if present
        then bind (lift (getitem_str msg ''data'')) (\<lambda>data.
             (\<lambda>d. lift (parse_values (features d) data) d))
        else bind (print (LogReceived msg)) (\<lambda>u. return (JObj [])))
      else if resource = JStr ''/ci/registeredDevices'' then return (JObj [])
      else if resource = JStr ''/ci/tzInfo'' then return (JObj [])
      else if resource = JStr ''/ci/authentication'' then
        bind (lift (has_data msg)) (\<lambda>some.
        if some
        then bind (lift (and_then (first_data msg) (\<lambda>rec. getitem_str rec ''response''))) (\<lambda>response.
             bind (modify (\<lambda>d. d\<lparr>token := response\<rparr>)) (\<lambda>u. return (JObj [])))
        else return (JObj []))
      else bind (print (LogUnknownResponse msg)) (\<lambda>u. return (JObj [])))"
    unfolding handle_response_def using assms by (simp only: if_False)
  then show ?thesis
    by (simp only:) (intro keeps_intros keeps_print_flag, simp_all)
qed

lemma keeps_handle_message_flag:
  assumes "\<not> is_services_list (RxFrame buf)"
  shows "keeps services_initialized (handle_message buf)"
proof (cases buf)
  case Undecodable
  then show ?thesis by (simp add: handle_message_def)
next
  case (Decodes msg)
  show ?thesis
  proof (cases "\<exists>kvs resource action. msg = JObj kvs \<and> map_of kvs ''resource'' = Some resource
                  \<and> map_of kvs ''action'' = Some action")
    case False
    have fallthrough: "keeps services_initialized (bind (lift (getitem_str msg ''resource'')) (\<lambda>resource.
            bind (lift (getitem_str msg ''action'')) (\<lambda>action. rest resource action)))" for rest
    proof (cases msg)
      case (JObj kvs)
      with False show ?thesis
        by (cases "map_of kvs ''resource''"; cases "map_of kvs ''action''") simp_all
    qed simp_all
    from Decodes show ?thesis
      unfolding handle_message_def
      by (simp only: json_loads.simps bind_lift_Inr)
         (rule keeps_bind, rule keeps_if_debug, simp, rule fallthrough)
  next
    case True
    then obtain kvs resource action where msg: "msg = JObj kvs"
      and resource: "map_of kvs ''resource'' = Some resource"
      and action: "map_of kvs ''action'' = Some action"
      by blast
    show ?thesis
    proof (cases "map_of kvs ''code''")
      case (Some code)
      with Decodes msg resource action show ?thesis
        by (simp add: handle_message_def in_keys_iff keeps_if_debug)
    next
      case None
      from assms Decodes msg resource action None
      have other: "(action = JStr ''RESPONSE'' \<or> action = JStr ''NOTIFY'') \<Longrightarrow> resource \<noteq> JStr ''/ci/services''"
        by auto
      show ?thesis
      proof (cases "action = JStr ''POST''")
        case True
        with Decodes msg resource action None show ?thesis
          by (simp add: handle_message_def in_keys_iff keeps_handle_post_flag keeps_if_debug)
      next
        case False
        show ?thesis
        proof (cases "action = JStr ''RESPONSE'' \<or> action = JStr ''NOTIFY''")
          case True
          with False Decodes msg resource action None other show ?thesis
            by (simp add: handle_message_def in_keys_iff keeps_other_response_flag keeps_if_debug)
        next
          case no: False
          with False Decodes msg resource action None show ?thesis
            by (simp add: handle_message_def in_keys_iff keeps_def bind_def print_def)
        qed
      qed
    qed
  qed
qed

lemma keeps_print_entropy: "keeps entropy (print ev)"
  by (simp add: keeps_def print_def entropy_def)

lemma keeps_reply_reads_entropy: "keeps entropy (\<lambda>d. reply msg (g d) d)"
proof -
  have "keeps entropy (send m)" for m
    by (simp add: keeps_def send_eq entropy_def)
  then have "keeps entropy (reply msg rep)" for rep
    by (simp add: reply_def)
  then show ?thesis by (simp add: keeps_def)
qed

lemma keeps_handle_post_entropy: "keeps entropy (handle_post msg resource)"
  unfolding handle_post_def
  by (intro keeps_intros keeps_print_entropy keeps_reply_reads_entropy) (simp_all add: entropy_def)

lemma keeps_add_services_entropy: "keeps entropy (add_services items)"
proof (induction items)
  case Nil
  show ?case by (simp only: add_services.simps keeps_return)
next
  case (Cons service rest)
  then show ?case
    by (simp only: add_services.simps) (intro keeps_intros, simp_all add: entropy_def)
qed

lemma keeps_handle_response_entropy: "keeps entropy (handle_response msg resource)"
  unfolding handle_response_def
  by (intro keeps_intros keeps_print_entropy keeps_add_services_entropy) (simp_all add: entropy_def)

lemma keeps_handle_message_entropy: "keeps entropy (handle_message buf)"
  unfolding handle_message_def
  by (intro keeps_intros keeps_print_entropy keeps_handle_post_entropy keeps_handle_response_entropy)
     (simp_all add: entropy_def)

section \<open>Lemmas about \<^verbatim>\<open>recv\<close>, \<^verbatim>\<open>get\<close> and the loop of \<^verbatim>\<open>reconnect\<close>\<close>

lemma recv_state:
  "snd (recv d) =
     (case rx (ws d) of
        [] \<Rightarrow> d
      | RxNone # r \<Rightarrow> d\<lparr>ws := (ws d)\<lparr>rx := r\<rparr>\<rparr>
      | RxRaise e # r \<Rightarrow>
          d\<lparr>ws := (ws d)\<lparr>rx := r\<rparr>,
            out := out d @ (if is_Exception e then [LogReceiveError e] else [])\<rparr>
      | RxFrame buf # r \<Rightarrow>
          (case handle_message buf (d\<lparr>ws := (ws d)\<lparr>rx := r\<rparr>\<rparr>) of
             (Inl e, d') \<Rightarrow>
               d'\<lparr>out := out d' @ (if is_Exception e then [LogErrorHandlingMsg e buf] else [])\<rparr>
           | (Inr v, d') \<Rightarrow> d'))"
  by (simp add: recv_def split: list.splits rx_event.splits prod.splits sum.splits)

lemma recv_pending: "pending (snd (recv d)) = tl (pending d)"
proof (cases "rx (ws d)")
  case Nil
  then show ?thesis by (simp add: recv_state pending_def)
next
  case (Cons ev r)
  show ?thesis
  proof (cases ev)
    case (RxFrame buf)
    let ?d0 = "d\<lparr>ws := (ws d)\<lparr>rx := r\<rparr>\<rparr>"
    have "pending (snd (handle_message buf ?d0)) = pending ?d0"
      using keeps_handle_message_pending by (rule keepsD)
    with Cons RxFrame show ?thesis
      by (cases "handle_message buf ?d0") (auto simp: recv_state pending_def split: sum.splits)
  qed (simp_all add: Cons recv_state pending_def)
qed

lemma recv_entropy: "entropy (snd (recv d)) = entropy d"
proof (cases "rx (ws d)")
  case Nil
  then show ?thesis by (simp add: recv_state)
next
  case (Cons ev r)
  show ?thesis
  proof (cases ev)
    case (RxFrame buf)
    let ?d0 = "d\<lparr>ws := (ws d)\<lparr>rx := r\<rparr>\<rparr>"
    have "entropy (snd (handle_message buf ?d0)) = entropy ?d0"
      using keeps_handle_message_entropy by (rule keepsD)
    with Cons RxFrame show ?thesis
      by (cases "handle_message buf ?d0") (auto simp: recv_state entropy_def split: sum.splits)
  qed (simp_all add: Cons recv_state entropy_def)
qed

lemma recv_flag:
  assumes "\<not> services_initialized d" and "services_initialized (snd (recv d))"
  shows "\<exists>ev r. pending d = ev # r \<and> is_services_list ev"
proof (cases "rx (ws d)")
  case Nil
  with assms show ?thesis by (simp add: recv_state)
next
  case (Cons ev r)
  show ?thesis
  proof (cases ev)
    case (RxFrame buf)
    let ?d0 = "d\<lparr>ws := (ws d)\<lparr>rx := r\<rparr>\<rparr>"
    have "is_services_list (RxFrame buf)"
    proof (rule ccontr)
      assume "\<not> is_services_list (RxFrame buf)"
      then have "services_initialized (snd (handle_message buf ?d0)) = services_initialized ?d0"
        using keeps_handle_message_flag by (blast dest: keepsD)
      with Cons RxFrame assms show False
        by (cases "handle_message buf ?d0") (auto simp: recv_state split: sum.splits)
    qed
    with Cons RxFrame show ?thesis by (simp add: pending_def)
  qed (use assms Cons in \<open>simp_all add: recv_state\<close>)
qed

lemma keeps_get:
  assumes out: "\<And>d evs. f (d\<lparr>out := evs\<rparr>) = f d"
    and ws: "\<And>d msg. f (d\<lparr>ws := snd (ws_send msg (ws d))\<rparr>) = f d"
    and tx: "\<And>d n. f (d\<lparr>tx_msg_id := n\<rparr>) = f d"
  shows "keeps f (get resource version_arg action_arg data)"
proof -
  have a: "keeps f (resolve_version r v)" for r v
    unfolding keeps_def
  proof
    fix d
    obtain v' evs where "resolve_version r v d = (Inr v', d\<lparr>out := out d @ evs\<rparr>)"
      using resolve_version_shape by blast
    then show "f (snd (resolve_version r v d)) = f d" by (simp add: out)
  qed
  have b: "keeps f (validate r a xs)" for r a xs
    unfolding keeps_def
  proof
    fix d
    obtain evs where "snd (validate r a xs d) = d\<lparr>out := out d @ evs\<rparr>"
      using validate_shape by blast
    then show "f (snd (validate r a xs d)) = f d" by (simp add: out)
  qed
  have c: "keeps f (try_send msg)" for msg
    by (simp add: keeps_def try_send_eq out ws)
  have d: "keeps f increment_tx_msg_id"
    by (simp add: keeps_def increment_tx_msg_id_def tx split: sum.splits)
  have e: "keeps f (\<lambda>d. return (g d) d)" for g :: "device \<Rightarrow> (string \<times> json) list"
    by (simp add: keeps_def)
  show ?thesis
    unfolding get_def Let_def
    by (intro keeps_bind keeps_if keeps_return a b c d e)
qed

lemma keeps_get_flag: "keeps services_initialized (get resource version_arg action_arg data)"
  by (rule keeps_get) simp_all

lemma keeps_get_pending: "keeps pending (get resource version_arg action_arg data)"
  by (rule keeps_get) (simp_all add: pending_def rx_ws_send)

lemma keeps_get_entropy: "keeps entropy (get resource version_arg action_arg data)"
  by (rule keeps_get) (simp_all add: entropy_def)

lemma keeps_get_token: "keeps token (get resource version_arg action_arg data)"
  by (rule keeps_get) simp_all

lemma services_loop_exit:
  assumes ret: "services_loop d = Some res" and ok: "fst res = Inr ()"
  shows "services_initialized (snd res)
         \<and> entropy (snd res) = entropy d
         \<and> (\<not> services_initialized d \<longrightarrow> (\<exists>ev \<in> set (pending d). is_services_list ev))"
proof -
  have "fst res = Inr () \<longrightarrow> services_initialized (snd res)
         \<and> entropy (snd res) = entropy d
         \<and> (\<not> services_initialized d \<longrightarrow> (\<exists>ev \<in> set (pending d). is_services_list ev))"
  proof (rule services_loop.raw_induct
      [where P = "\<lambda>d res. fst res = Inr () \<longrightarrow> services_initialized (snd res)
           \<and> entropy (snd res) = entropy d
           \<and> (\<not> services_initialized d \<longrightarrow> (\<exists>ev \<in> set (pending d). is_services_list ev))",
       OF _ ret])
    fix f d res
    assume IH: "\<And>d res. f d = Some res \<Longrightarrow>
        fst res = Inr () \<longrightarrow> services_initialized (snd res)
           \<and> entropy (snd res) = entropy d
           \<and> (\<not> services_initialized d \<longrightarrow> (\<exists>ev \<in> set (pending d). is_services_list ev))"
      and body: "(case recv d of
          (Inl e, d') \<Rightarrow> Some (Inl e, d')
        | (Inr values, d') \<Rightarrow>
            if services_initialized d' then Some (Inr (), d') else f d') = Some res"
    obtain r d1 where step: "recv d = (r, d1)" by (cases "recv d")
    have pend: "pending d1 = tl (pending d)" using recv_pending [of d] step by simp
    have ent: "entropy d1 = entropy d" using recv_entropy [of d] step by simp
    show "fst res = Inr () \<longrightarrow> services_initialized (snd res)
           \<and> entropy (snd res) = entropy d
           \<and> (\<not> services_initialized d \<longrightarrow> (\<exists>ev \<in> set (pending d). is_services_list ev))"
    proof (cases r)
      case (Inl e)
      with body step have "res = (Inl e, d1)" by simp
      then show ?thesis by simp
    next
      case (Inr vals)
      show ?thesis
      proof (cases "services_initialized d1")
        case True
        with body step Inr have res: "res = (Inr (), d1)" by simp
        have "\<not> services_initialized d \<longrightarrow> (\<exists>ev \<in> set (pending d). is_services_list ev)"
        proof
          assume "\<not> services_initialized d"
          with True step recv_flag [of d] obtain ev r where "pending d = ev # r" "is_services_list ev"
            by auto
          then show "\<exists>ev \<in> set (pending d). is_services_list ev" by auto
        qed
        with res True ent show ?thesis by simp
      next
        case False
        with body step Inr have next_round: "f d1 = Some res" by simp
        show ?thesis
        proof
          assume "fst res = Inr ()"
          with IH [OF next_round] False obtain ev where ev: "ev \<in> set (pending d1)" "is_services_list ev"
            and rest: "services_initialized (snd res)" "entropy (snd res) = entropy d1"
            by blast
          from ev(1) pend have "ev \<in> set (pending d)"
            by (cases "pending d") auto
          with ev(2) rest ent
          show "services_initialized (snd res)
             \<and> entropy (snd res) = entropy d
             \<and> (\<not> services_initialized d \<longrightarrow> (\<exists>ev \<in> set (pending d). is_services_list ev))"
            by auto
        qed
      qed
    qed
  qed
  with ok show ?thesis by blast
qed

lemma before_services_steps:
  assumes "before_services d = (Inr (), d1)"
  shows "entropy d1 = entropy d"
    and "pending d1 = tl (pending d)"
    and "\<not> services_initialized d \<Longrightarrow> services_initialized d1 \<Longrightarrow>
           \<exists>ev r. pending d = ev # r \<and> is_services_list ev"
proof -
  obtain r0 w where w: "ws_reconnect (ws d) = (r0, w)" by (cases "ws_reconnect (ws d)")
  let ?d0 = "d\<lparr>ws := w\<rparr>"
  have rxw: "rx w = rx (ws d)"
    using w by (auto split: list.splits bool.splits)
  obtain r1 d0' where step: "recv ?d0 = (r1, d0')" by (cases "recv ?d0")
  from assms w have r0: "r0 = Inr ()"
    by (cases r0) (simp_all add: before_services_def bind_def)
  with assms w step obtain vals where r1: "r1 = Inr vals"
    by (cases r1) (simp_all add: before_services_def bind_def)
  with r0 assms w step have get: "get ''/ci/services'' None None JNull d0' = (Inr (), d1)"
    by (simp add: before_services_def bind_def)
  have flag: "services_initialized d1 = services_initialized d0'"
    using keepsD [OF keeps_get_flag, of "''/ci/services''" None None JNull d0'] get by simp
  have pend: "pending d1 = pending d0'"
    using keepsD [OF keeps_get_pending, of "''/ci/services''" None None JNull d0'] get by simp
  have ent: "entropy d1 = entropy d0'"
    using keepsD [OF keeps_get_entropy, of "''/ci/services''" None None JNull d0'] get by simp
  have pend0: "pending d0' = tl (pending ?d0)" using recv_pending [of ?d0] step by simp
  have ent0: "entropy d0' = entropy ?d0" using recv_entropy [of ?d0] step by simp
  show "entropy d1 = entropy d" using ent ent0 by (simp add: entropy_def)
  show "pending d1 = tl (pending d)" using pend pend0 rxw by (simp add: pending_def)
  show "\<exists>ev r. pending d = ev # r \<and> is_services_list ev"
    if "\<not> services_initialized d" "services_initialized d1"
  proof -
    from that flag step have "\<not> services_initialized ?d0" "services_initialized (snd (recv ?d0))"
      by simp_all
    from recv_flag [OF this] rxw show ?thesis by (simp add: pending_def)
  qed
qed

lemma after_services_result:
  "services_initialized (snd (after_services d)) = services_initialized d"
  "token (snd (after_services d)) = JStr (strip_padding (nonces d (nonces_used d)))"
proof -
  have flag: "keeps services_initialized new_token"
    by (simp add: keeps_def new_token_def)
  have nonce_flag: "keeps services_initialized
      (\<lambda>d. get ''/ci/authentication'' (Some (JInt 2)) None (JObj [(''nonce'', token d)]) d)"
    using keeps_get_flag by (simp add: keeps_def)
  have nonce_token: "keeps token
      (\<lambda>d. get ''/ci/authentication'' (Some (JInt 2)) None (JObj [(''nonce'', token d)]) d)"
    using keeps_get_token by (simp add: keeps_def)
  have "keeps services_initialized after_services"
    unfolding after_services_def
    by (intro keeps_bind flag nonce_flag keeps_get_flag)
  then show "services_initialized (snd (after_services d)) = services_initialized d"
    by (rule keepsD)
  have rest: "keeps token
     (bind (\<lambda>d. get ''/ci/authentication'' (Some (JInt 2)) None (JObj [(''nonce'', token d)]) d) (\<lambda>u.
      bind (get ''/ci/info'' None None JNull) (\<lambda>u.
      bind (get ''/iz/info'' None None JNull) (\<lambda>u.
      bind (get ''/ci/registeredDevices'' None None JNull) (\<lambda>u.
      bind (get ''/ei/deviceReady'' (Some (JInt 2)) (Some ''NOTIFY'') JNull) (\<lambda>u.
      bind (get ''/ni/info'' None None JNull) (\<lambda>u.
      get ''/ro/allMandatoryValues'' None None JNull)))))))"
    by (intro keeps_bind nonce_token keeps_get_token)
  show "token (snd (after_services d)) = JStr (strip_padding (nonces d (nonces_used d)))"
    unfolding after_services_def
    using keepsD [OF rest, of "d\<lparr>token := JStr (strip_padding (nonces d (nonces_used d))),
                 nonces_used := Suc (nonces_used d)\<rparr>"]
    by (simp add: bind_def new_token_def)
qed

section \<open>Reconnecting\<close>

text \<open>
  Claim C1, as stated, fails: \<^verbatim>\<open>reconnect\<close> assigns none of the session fields before it
  starts to receive, so a Session that has been through a handshake keeps its flag, its
  service table and its message counter. On such a device, with a socket that delivers
  nothing after the reconnect, \<^verbatim>\<open>reconnect\<close> completes: the loop ends after one \<^verbatim>\<open>recv\<close>
  because the flag is still set, no services-list response has arrived, the eight
  requests carry the old session id and continue the old counter (100 to 107), and the
  service table on return is the old one.
\<close>

theorem reconnect_keeps_session_counterexample:
  "pending stale_device = []
   \<and> session stale_device = (JInt 77, JInt 100, True, [(JStr ''iz'', JInt 9)], JStr ''b2xk'')
   \<and> map_option fst (reconnect stale_device) = Some (Inr ())
   \<and> map_option (session \<circ> snd) (reconnect stale_device)
       = Some (JInt 77, JInt 108, True, [(JStr ''iz'', JInt 9)], JStr ''c2VjcmV0'')
   \<and> map_option (message_ids \<circ> sent \<circ> ws \<circ> snd) (reconnect stale_device)
       = Some [Inr (JInt 100), Inr (JInt 101), Inr (JInt 102), Inr (JInt 103), Inr (JInt 104),
               Inr (JInt 105), Inr (JInt 106), Inr (JInt 107)]"
  by (simp add: reconnect_def before_services_def after_services_def services_loop.simps recv_def
      get_def resolve_version_def validate_def try_send_def send_def ws_send.simps new_token_def
      increment_tx_msg_id_def bind_def print_def strip_padding_def pending_def
      stale_device_def example_device_def init_def idle_socket_def session_def message_ids_def)

text \<open>
  Claim C1, amended. A Session is empty as \<^verbatim>\<open>__init__\<close> constructs it: no session id,
  no message counter, the flag false, no services, no token. \<^verbatim>\<open>reconnect\<close> itself resets
  nothing: when the socket reconnects and then delivers nothing, the request for the
  services goes out on the Session as it was, and afterwards session id, flag, service
  table and token are the prior ones and the counter is the prior one plus one. Whenever
  \<^verbatim>\<open>reconnect\<close> returns normally the flag is set and the token is the freshly generated
  one, with the padding characters removed. On a Session whose flag is false on entry,
  as after \<^verbatim>\<open>__init__\<close>, \<^verbatim>\<open>reconnect\<close> returns normally only if the socket has delivered a
  services-list response: the receive loop goes on until one arrives.
\<close>

theorem reconnect_handshake:
  "session (init w fs nm rnd) = (JNull, JNull, False, [], JNull)
   \<and> (\<forall>n. fst (ws_reconnect (ws d)) = Inr () \<and> rx (ws d) = [] \<and> tx_msg_id d = JInt n \<longrightarrow>
          session (snd (before_services d))
            = (session_id d, JInt (n + 1), services_initialized d, services d, token d))
   \<and> (\<forall>d'. reconnect d = Some (Inr (), d') \<longrightarrow>
          services_initialized d'
          \<and> token d' = JStr (strip_padding (nonces d (nonces_used d)))
          \<and> (\<not> services_initialized d \<longrightarrow> (\<exists>ev \<in> set (rx (ws d)). is_services_list ev)))"
proof -
  have empty: "session (init w fs nm rnd) = (JNull, JNull, False, [], JNull)"
    by (simp add: session_def init_def)
  have kept: "\<forall>n. fst (ws_reconnect (ws d)) = Inr () \<and> rx (ws d) = [] \<and> tx_msg_id d = JInt n \<longrightarrow>
          session (snd (before_services d))
            = (session_id d, JInt (n + 1), services_initialized d, services d, token d)"
  proof (intro allI impI)
    fix n
    assume a: "fst (ws_reconnect (ws d)) = Inr () \<and> rx (ws d) = [] \<and> tx_msg_id d = JInt n"
    obtain w' where w': "ws_reconnect (ws d) = (Inr (), w')"
      using a by (cases "ws_reconnect (ws d)") simp
    with a have rx: "rx w' = []" by (auto split: list.splits bool.splits)
    let ?d0 = "d\<lparr>ws := w'\<rparr>"
    from rx have "recv ?d0 = (Inr JNull, ?d0)" by (simp add: recv_def)
    with w' have eq: "before_services d = get ''/ci/services'' None None JNull ?d0"
      by (simp add: before_services_def bind_def)
    obtain version where v: "fst (resolve_version ''/ci/services'' (version_or_default None) ?d0) = Inr version"
      using resolve_version_shape [of "''/ci/services''" "version_or_default None" ?d0] by auto
    from get_accepted(3,4,5,6,7) [OF _ v, of JNull None] a
    show "session (snd (before_services d))
            = (session_id d, JInt (n + 1), services_initialized d, services d, token d)"
      by (simp add: eq session_def)
  qed
  have returned: "\<forall>d'. reconnect d = Some (Inr (), d') \<longrightarrow>
          services_initialized d'
          \<and> token d' = JStr (strip_padding (nonces d (nonces_used d)))
          \<and> (\<not> services_initialized d \<longrightarrow> (\<exists>ev \<in> set (rx (ws d)). is_services_list ev))"
  proof (intro allI impI)
    fix d'
    assume ret: "reconnect d = Some (Inr (), d')"
    then obtain d1 where before: "before_services d = (Inr (), d1)"
      by (cases "before_services d"; cases "fst (before_services d)")
         (auto simp: reconnect_def split: option.splits prod.splits sum.splits)
    with ret obtain d3 where loop: "services_loop d1 = Some (Inr (), d3)"
      and after: "after_services d3 = (Inr (), d')"
      by (auto simp: reconnect_def split: option.splits prod.splits sum.splits)
    from services_loop_exit [OF loop]
    have flag3: "services_initialized d3" and ent3: "entropy d3 = entropy d1"
      and list1: "\<not> services_initialized d1 \<Longrightarrow> \<exists>ev \<in> set (pending d1). is_services_list ev"
      by auto
    from before_services_steps(1) [OF before] ent3 have ent: "entropy d3 = entropy d" by simp
    have flag: "services_initialized d'"
      using after_services_result(1) [of d3] after flag3 by simp
    have tok: "token d' = JStr (strip_padding (nonces d (nonces_used d)))"
      using after_services_result(2) [of d3] after ent by (simp add: entropy_def)
    have list: "\<exists>ev \<in> set (rx (ws d)). is_services_list ev" if fresh: "\<not> services_initialized d"
    proof (cases "services_initialized d1")
      case True
      from before_services_steps(3) [OF before fresh True]
      show ?thesis by (auto simp: pending_def)
    next
      case False
      from list1 [OF False] obtain ev where ev: "ev \<in> set (pending d1)" "is_services_list ev"
        by blast
      from ev(1) before_services_steps(2) [OF before] have "ev \<in> set (pending d)"
        by (cases "pending d") auto
      with ev(2) show ?thesis by (auto simp: pending_def)
    qed
    from flag tok list
    show "services_initialized d'
          \<and> token d' = JStr (strip_padding (nonces d (nonces_used d)))
          \<and> (\<not> services_initialized d \<longrightarrow> (\<exists>ev \<in> set (rx (ws d)). is_services_list ev))"
      by blast
  qed
  from empty kept returned show ?thesis by blast
qed

theorem reconnect_handshake_witness:
  "map_option (\<lambda>r. (fst r, session (snd r), message_ids (sent (ws (snd r)))))
     (reconnect fresh_device)
     = Some (Inr (), (JInt 77, JInt 108, True, [(JStr ''ci'', JInt 3)], JStr ''c2VjcmV0PQ''),
             [Inr (JInt 7), Inr (JInt 100), Inr (JInt 101), Inr (JInt 102), Inr (JInt 103),
              Inr (JInt 104), Inr (JInt 105), Inr (JInt 106), Inr (JInt 107)])
   \<and> (\<exists>d'. reconnect fresh_device = Some (Inr (), d')
            \<and> services_initialized d' \<and> token d' = JStr ''c2VjcmV0PQ'')
   \<and> is_services_list (rx (ws fresh_device) ! 3)"
proof -
  have run: "map_option (\<lambda>r. (fst r, session (snd r), message_ids (sent (ws (snd r)))))
     (reconnect fresh_device)
     = Some (Inr (), (JInt 77, JInt 108, True, [(JStr ''ci'', JInt 3)], JStr ''c2VjcmV0PQ''),
             [Inr (JInt 7), Inr (JInt 100), Inr (JInt 101), Inr (JInt 102), Inr (JInt 103),
              Inr (JInt 104), Inr (JInt 105), Inr (JInt 106), Inr (JInt 107)])"
    by (simp add: reconnect_def before_services_def after_services_def services_loop.simps recv_def
        handle_message_def handle_post_def handle_response_def first_data_def reply_def
        get_def resolve_version_def validate_def try_send_def send_def ws_send.simps new_token_def
        increment_tx_msg_id_def bind_def print_def lift_def modify_def strip_padding_def
        fresh_device_def initial_values_def services_list_ci_def scripted_socket_def
        init_def session_def message_ids_def)
  then obtain d' where ret: "reconnect fresh_device = Some (Inr (), d')"
    by (cases "reconnect fresh_device") auto
  have fresh: "\<not> services_initialized fresh_device"
    and nonce: "strip_padding (nonces fresh_device (nonces_used fresh_device)) = ''c2VjcmV0PQ''"
    by (simp_all add: fresh_device_def init_def strip_padding_def)
  from reconnect_handshake [of idle_socket None "''oven''" "\<lambda>n. []" fresh_device] ret fresh nonce
  have "services_initialized d' \<and> token d' = JStr ''c2VjcmV0PQ''"
    by auto
  with ret have "\<exists>d'. reconnect fresh_device = Some (Inr (), d')
            \<and> services_initialized d' \<and> token d' = JStr ''c2VjcmV0PQ''"
    by blast
  moreover have "is_services_list (rx (ws fresh_device) ! 3)"
    by (simp add: fresh_device_def init_def scripted_socket_def services_list_ci_def)
  ultimately show ?thesis using run by blast
qed

section \<open>Message ids of outbound messages\<close>

text \<open>
  Claim C2, as stated, fails: not every outbound message carries the session's next
  message id and uses it up. The reply to the initial-values message echoes the
  message id of the message it answers (in the source: \<^verbatim>\<open>same one they sent to us\<close>) and
  leaves \<^verbatim>\<open>tx_msg_id\<close> alone. For the first message of a connection with message id 7
  and \<^verbatim>\<open>edMsgID\<close> 100, the one message sent carries 7 while the counter is 100 before and
  after the send.
\<close>

theorem reply_msg_id_counterexample:
  "message_ids (sent (ws (snd (handle_message (Decodes (JObj initial_values)) new_device))))
     = [Inr (JInt 7)]
   \<and> tx_msg_id (snd (handle_message (Decodes (JObj initial_values)) new_device)) = JInt 100"
  by (simp add: handle_message_def handle_post_def first_data_def reply_def send_def
      ws_send.simps bind_def lift_def modify_def print_def initial_values_def new_device_def
      init_def idle_socket_def message_ids_def)

text \<open>
  Claim C2, amended. On a session whose message counter is an integer \<open>n\<close>:
  every call of \<^verbatim>\<open>get\<close> that sends (no payload, or a payload that passes validation)
  hands to the socket an envelope with the session's \<^verbatim>\<open>session_id\<close> and with \<open>n\<close> as
  message id, returns normally and leaves the counter at \<open>n + 1\<close>, whether or not
  \<^verbatim>\<open>ws.send\<close> raised. A call whose validation raises sends nothing and leaves the
  counter (claim C9). So for every sequence of calls the message ids handed to the
  socket are \<open>n, n + 1, \<dots>\<close> without gap or repetition, all under the same session
  id, and the counter ends at \<open>n\<close> plus the number of messages sent. The reply to the
  initial-values message is outside this numbering: it carries the session id and the
  message id of the inbound message, and after it \<^verbatim>\<open>session_id\<close> and \<^verbatim>\<open>tx_msg_id\<close> are that
  message's \<^verbatim>\<open>sID\<close> and \<^verbatim>\<open>edMsgID\<close>.
\<close>

theorem get_message_ids:
  assumes "tx_msg_id d = JInt n"
  shows "((data = JNull
           \<or> fst (validate resource (action_or_default action_arg) (as_list data) d) = Inr ()) \<longrightarrow>
          fst (get resource version_arg action_arg data d) = Inr ()
          \<and> tx_msg_id (snd (get resource version_arg action_arg data d)) = JInt (n + 1)
          \<and> session_id (snd (get resource version_arg action_arg data d)) = session_id d
          \<and> (\<exists>version. sent (ws (snd (get resource version_arg action_arg data d)))
                = sent (ws d) @ [envelope (session_id d) (JInt n) resource version
                                          (action_or_default action_arg) data]))
   \<and> (\<exists>k. tx_msg_id (calls cs d) = JInt (n + int k)
          \<and> session_id (calls cs d) = session_id d
          \<and> message_ids (sent (ws (calls cs d)))
              = message_ids (sent (ws d)) @ map (\<lambda>i. Inr (JInt (n + int i))) [0..<k]
          \<and> session_ids (sent (ws (calls cs d)))
              = session_ids (sent (ws d)) @ replicate k (Inr (session_id d)))
   \<and> (\<forall>d0 sid mid ver record more edMsgID.
          map_of kvs ''resource'' = Some (JStr ''/ei/initialValues'')
          \<and> map_of kvs ''action'' = Some (JStr ''POST'') \<and> map_of kvs ''code'' = None
          \<and> map_of kvs ''sID'' = Some sid \<and> map_of kvs ''msgID'' = Some mid
          \<and> map_of kvs ''version'' = Some ver
          \<and> map_of kvs ''data'' = Some (JArr (JObj record # more))
          \<and> map_of record ''edMsgID'' = Some edMsgID \<longrightarrow>
          sent (ws (snd (handle_message (Decodes (JObj kvs)) d0)))
            = sent (ws d0)
              @ [JObj [(''sID'', sid), (''msgID'', mid), (''resource'', JStr ''/ei/initialValues''),
                       (''version'', ver), (''action'', JStr ''RESPONSE''),
                       (''data'', JArr [JObj [(''deviceType'', JStr ''Application''),
                                              (''deviceName'', JStr (device_name d0)),
                                              (''deviceID'', JStr (device_id d0))]])]]
          \<and> session_id (snd (handle_message (Decodes (JObj kvs)) d0)) = sid
          \<and> tx_msg_id (snd (handle_message (Decodes (JObj kvs)) d0)) = edMsgID)"
proof -
  have one: "(data = JNull
           \<or> fst (validate resource (action_or_default action_arg) (as_list data) d) = Inr ()) \<longrightarrow>
          fst (get resource version_arg action_arg data d) = Inr ()
          \<and> tx_msg_id (snd (get resource version_arg action_arg data d)) = JInt (n + 1)
          \<and> session_id (snd (get resource version_arg action_arg data d)) = session_id d
          \<and> (\<exists>version. sent (ws (snd (get resource version_arg action_arg data d)))
                = sent (ws d) @ [envelope (session_id d) (JInt n) resource version
                                          (action_or_default action_arg) data])"
  proof
    assume ok: "data = JNull
           \<or> fst (validate resource (action_or_default action_arg) (as_list data) d) = Inr ()"
    obtain version where v: "fst (resolve_version resource (version_or_default version_arg) d) = Inr version"
      using resolve_version_shape [of resource "version_or_default version_arg" d] by auto
    from get_accepted(1,2,3,4) [OF ok v] assms
    show "fst (get resource version_arg action_arg data d) = Inr ()
          \<and> tx_msg_id (snd (get resource version_arg action_arg data d)) = JInt (n + 1)
          \<and> session_id (snd (get resource version_arg action_arg data d)) = session_id d
          \<and> (\<exists>version. sent (ws (snd (get resource version_arg action_arg data d)))
                = sent (ws d) @ [envelope (session_id d) (JInt n) resource version
                                          (action_or_default action_arg) data])"
      by auto
  qed
  have many: "\<exists>k. tx_msg_id (calls cs d) = JInt (n + int k)
          \<and> session_id (calls cs d) = session_id d
          \<and> message_ids (sent (ws (calls cs d)))
              = message_ids (sent (ws d)) @ map (\<lambda>i. Inr (JInt (n + int i))) [0..<k]
          \<and> session_ids (sent (ws (calls cs d)))
              = session_ids (sent (ws d)) @ replicate k (Inr (session_id d))"
    using assms by (rule calls_ids)
  have echo: "\<forall>d0 sid mid ver record more edMsgID.
          map_of kvs ''resource'' = Some (JStr ''/ei/initialValues'')
          \<and> map_of kvs ''action'' = Some (JStr ''POST'') \<and> map_of kvs ''code'' = None
          \<and> map_of kvs ''sID'' = Some sid \<and> map_of kvs ''msgID'' = Some mid
          \<and> map_of kvs ''version'' = Some ver
          \<and> map_of kvs ''data'' = Some (JArr (JObj record # more))
          \<and> map_of record ''edMsgID'' = Some edMsgID \<longrightarrow>
          sent (ws (snd (handle_message (Decodes (JObj kvs)) d0)))
            = sent (ws d0)
              @ [JObj [(''sID'', sid), (''msgID'', mid), (''resource'', JStr ''/ei/initialValues''),
                       (''version'', ver), (''action'', JStr ''RESPONSE''),
                       (''data'', JArr [JObj [(''deviceType'', JStr ''Application''),
                                              (''deviceName'', JStr (device_name d0)),
                                              (''deviceID'', JStr (device_id d0))]])]]
          \<and> session_id (snd (handle_message (Decodes (JObj kvs)) d0)) = sid
          \<and> tx_msg_id (snd (handle_message (Decodes (JObj kvs)) d0)) = edMsgID"
    by (auto simp: handle_message_def handle_post_def first_data_def reply_def send_eq
        bind_def lift_def modify_def print_def in_keys_iff sent_ws_send split: sum.splits)
  from one many echo show ?thesis by blast
qed

theorem get_message_ids_witness:
  "fst (get ''/ro/values'' None (Some ''POST'') (JObj [(''uid'', JInt 5123), (''value'', JInt 40)])
          (example_device (scripted_socket [] [True]))) = Inr ()
   \<and> tx_msg_id (snd (get ''/ro/values'' None (Some ''POST'')
                        (JObj [(''uid'', JInt 5123), (''value'', JInt 40)])
                        (example_device (scripted_socket [] [True])))) = JInt 101
   \<and> message_ids (sent (ws (snd (get ''/ro/values'' None (Some ''POST'')
                                    (JObj [(''uid'', JInt 5123), (''value'', JInt 40)])
                                    (example_device (scripted_socket [] [True]))))))
       = [Inr (JInt 100)]"
proof -
  let ?dev = "example_device (scripted_socket [] [True])"
  let ?data = "JObj [(''uid'', JInt 5123), (''value'', JInt 40)]"
  have n: "tx_msg_id ?dev = JInt 100" and nil: "sent (ws ?dev) = []"
    by (simp_all add: example_device_def init_def scripted_socket_def)
  have "fst (test_feature (as_list ?data) ?dev) = Inr ()"
    unfolding test_feature_verdict
    by (simp add: feature_verdict_def locate_feature_def check_access_def check_values_def
        check_range_def example_device_def init_def example_catalog_def str_int_def
        str_nat.simps digit_def lower_def lower_char_def)
  then have ok: "?data = JNull
      \<or> fst (validate ''/ro/values'' (action_or_default (Some ''POST'')) (as_list ?data) ?dev) = Inr ()"
    by (simp add: validate_def action_or_default_def del: test_feature.simps)
  from get_message_ids [OF n, of ?data "''/ro/values''" "Some ''POST''" None] ok
  obtain version where "fst (get ''/ro/values'' None (Some ''POST'') ?data ?dev) = Inr ()"
    and "tx_msg_id (snd (get ''/ro/values'' None (Some ''POST'') ?data ?dev)) = JInt (100 + 1)"
    and "sent (ws (snd (get ''/ro/values'' None (Some ''POST'') ?data ?dev)))
           = sent (ws ?dev) @ [envelope (session_id ?dev) (JInt 100) ''/ro/values'' version
                                        (action_or_default (Some ''POST'')) ?data]"
    by blast
  then show ?thesis by (simp add: nil message_ids_def)
qed

section \<open>Value-write validation\<close>

text \<open>
  Claim C3, as stated, fails: the code lower-cases the access level before it compares
  it, so a descriptor whose access is \<^verbatim>\<open>readWrite\<close> is writable although its access
  level is not the string \<^verbatim>\<open>readwrite\<close>. The record \<^verbatim>\<open>{"uid": 539, "value": 1}\<close> is accepted
  by \<^verbatim>\<open>test_feature\<close> and rejected by the condition of the claim.
\<close>

theorem claimed_ok_counterexample:
  "fst (test_feature [JObj [(''uid'', JInt 539), (''value'', JInt 1)]] (example_device idle_socket))
     = Inr ()
   \<and> \<not> claimed_ok example_catalog (JObj [(''uid'', JInt 539), (''value'', JInt 1)])"
  unfolding test_feature_verdict
  by (simp add: feature_verdict_def locate_feature_def check_access_def check_values_def
      check_range_def example_device_def init_def example_catalog_def str_int_def str_nat.simps
      digit_def lower_def lower_char_def char_of_eq_iff)

text \<open>
  Claim C3, amended. For a catalog in which every descriptor with \<^verbatim>\<open>min\<close> has \<^verbatim>\<open>max\<close>,
  and a payload whose elements are dictionaries: \<^verbatim>\<open>test_feature\<close> accepts the batch
  exactly when every record has an integer-typed \<^verbatim>\<open>uid\<close> and a \<^verbatim>\<open>value\<close>, the string of
  the uid is a key of the catalog, the descriptor's access, lower-cased, is
  \<^verbatim>\<open>readwrite\<close> or \<^verbatim>\<open>writeonly\<close> (a descriptor without access is rejected), the value is
  an integer whose string is a key of the enumeration when there is one, and the value
  is an integer within the bounds when there are bounds. Otherwise it raises an
  \<^verbatim>\<open>Exception\<close> that carries a reason; \<^verbatim>\<open>get\<close>, called with POST on \<^verbatim>\<open>/ro/values\<close>, raises
  the same exception and has not called \<^verbatim>\<open>ws.send\<close>. The reason for a uid that is not
  in the catalog names the uid, the reason for a value outside the bounds names the
  value and the bounds.
\<close>

theorem test_feature_accepts_iff:
  assumes "features d = Some fs" and "bounds_paired fs"
    and "data \<noteq> JNull" and "list_all is_record (as_list data)"
  shows "(fst (test_feature (as_list data) d) = Inr () \<longleftrightarrow> list_all (feature_ok fs) (as_list data))
   \<and> (\<not> list_all (feature_ok fs) (as_list data) \<longrightarrow>
        (\<exists>reason. fst (test_feature (as_list data) d) = Inl (Exception reason)
           \<and> fst (get ''/ro/values'' version_arg (Some ''POST'') data d) = Inl (Exception reason)
           \<and> sent (ws (snd (get ''/ro/values'' version_arg (Some ''POST'') data d))) = sent (ws d)))
   \<and> (\<forall>kvs uid v. map_of kvs ''uid'' = Some uid \<and> is_int uid \<and> map_of kvs ''value'' = Some v
          \<and> map_of fs (py_str uid) = None \<longrightarrow>
        fst (test_feature [JObj kvs] d)
          = Inl (Exception (''Unable to configure appliance. UID '' @ py_str uid @ '' is not valid.'')))
   \<and> (\<forall>kvs uid v feature acc lo hi.
          map_of kvs ''uid'' = Some uid \<and> is_int uid \<and> map_of kvs ''value'' = Some v
          \<and> map_of fs (py_str uid) = Some feature
          \<and> f_access feature = Some acc \<and> (lower acc = ''readwrite'' \<or> lower acc = ''writeonly'')
          \<and> f_values feature = None \<and> f_min feature = Some lo \<and> f_max feature = Some hi
          \<and> (\<not> is_int v \<or> int_of v < lo \<or> hi < int_of v) \<longrightarrow>
        fst (test_feature [JObj kvs] d)
          = Inl (Exception (''Unable to configure appliance. Value '' @ py_str v
                            @ '' is not a valid value. The value must be an integer in the range ''
                            @ str_int lo @ '' and '' @ str_int hi @ ''.'')))"
proof -
  let ?batch = "as_list data"
  have verdict: "fst (test_feature xs d) = for_each (feature_verdict (Some fs)) xs" for xs
    using assms(1) by (simp add: test_feature_verdict)
  have iff: "fst (test_feature ?batch d) = Inr () \<longleftrightarrow> list_all (feature_ok fs) ?batch"
    by (simp add: verdict for_each_Inr feature_verdict_iff [OF assms(2)])
  have rejected: "\<not> list_all (feature_ok fs) ?batch \<longrightarrow>
        (\<exists>reason. fst (test_feature ?batch d) = Inl (Exception reason)
           \<and> fst (get ''/ro/values'' version_arg (Some ''POST'') data d) = Inl (Exception reason)
           \<and> sent (ws (snd (get ''/ro/values'' version_arg (Some ''POST'') data d))) = sent (ws d))"
  proof
    assume "\<not> list_all (feature_ok fs) ?batch"
    with iff obtain e where e: "fst (test_feature ?batch d) = Inl e"
      by (cases "fst (test_feature ?batch d)") auto
    then have "for_each (feature_verdict (Some fs)) ?batch = Inl e"
      by (simp add: verdict)
    then obtain x where x: "x \<in> set ?batch" "feature_verdict (Some fs) x = Inl e"
      using for_each_Inl by blast
    from x(1) assms(4) have "is_record x"
      by (simp add: list_all_iff)
    then obtain kvs where "x = JObj kvs"
      by (cases x) simp_all
    with x(2) feature_verdict_exception [OF assms(2), of kvs]
    obtain reason where reason: "e = Exception reason" by auto
    from e have "fst (validate ''/ro/values'' (action_or_default (Some ''POST'')) ?batch d) = Inl e"
      by (simp add: validate_def action_or_default_def)
    from get_rejected [OF assms(3) this, of version_arg] e reason
    show "\<exists>reason. fst (test_feature ?batch d) = Inl (Exception reason)
           \<and> fst (get ''/ro/values'' version_arg (Some ''POST'') data d) = Inl (Exception reason)
           \<and> sent (ws (snd (get ''/ro/values'' version_arg (Some ''POST'') data d))) = sent (ws d)"
      by simp
  qed
  have unknown: "\<forall>kvs uid v. map_of kvs ''uid'' = Some uid \<and> is_int uid \<and> map_of kvs ''value'' = Some v
          \<and> map_of fs (py_str uid) = None \<longrightarrow>
        fst (test_feature [JObj kvs] d)
          = Inl (Exception (''Unable to configure appliance. UID '' @ py_str uid @ '' is not valid.''))"
    unfolding verdict by (simp add: feature_verdict_def locate_feature_record)
  have range: "\<forall>kvs uid v feature acc lo hi.
          map_of kvs ''uid'' = Some uid \<and> is_int uid \<and> map_of kvs ''value'' = Some v
          \<and> map_of fs (py_str uid) = Some feature
          \<and> f_access feature = Some acc \<and> (lower acc = ''readwrite'' \<or> lower acc = ''writeonly'')
          \<and> f_values feature = None \<and> f_min feature = Some lo \<and> f_max feature = Some hi
          \<and> (\<not> is_int v \<or> int_of v < lo \<or> hi < int_of v) \<longrightarrow>
        fst (test_feature [JObj kvs] d)
          = Inl (Exception (''Unable to configure appliance. Value '' @ py_str v
                            @ '' is not a valid value. The value must be an integer in the range ''
                            @ str_int lo @ '' and '' @ str_int hi @ ''.''))"
    unfolding verdict
    by (auto simp: feature_verdict_def locate_feature_record check_access_def check_values_def
        check_range_def Let_def)
  from iff rejected unknown range show ?thesis by blast
qed

theorem test_feature_accepts_iff_witness:
  "fst (test_feature [JObj [(''uid'', JInt 5123), (''value'', JInt 100)]] (example_device idle_socket))
     = Inr ()
   \<and> fst (test_feature [JObj [(''uid'', JInt 5123), (''value'', JInt 150)]] (example_device idle_socket))
     = Inl (Exception ''Unable to configure appliance. Value 150 is not a valid value. The value must be an integer in the range 0 and 100.'')
   \<and> sent (ws (snd (get ''/ro/values'' None (Some ''POST'')
                      (JObj [(''uid'', JInt 5123), (''value'', JInt 150)])
                      (example_device idle_socket)))) = []"
proof -
  let ?dev = "example_device idle_socket"
  let ?good = "JObj [(''uid'', JInt 5123), (''value'', JInt 100)]"
  let ?bad = "JObj [(''uid'', JInt 5123), (''value'', JInt 150)]"
  have paired: "bounds_paired example_catalog"
    by (simp add: bounds_paired_def example_catalog_def)
  have cat: "features ?dev = Some example_catalog"
    by (simp add: example_device_def init_def)
  have str: "py_str (JInt 5123) = ''5123''" "py_str (JInt 150) = ''150''"
    by (simp_all add: str_int_def str_nat.simps digit_def)
  have lookup: "map_of example_catalog ''5123''
      = Some \<lparr>f_name = ''Cooking.Common.Setting.Lighting'', f_access = Some ''readwrite'',
               f_values = None, f_min = Some 0, f_max = Some 100\<rparr>"
    by (simp add: example_catalog_def)
  have low: "lower ''readwrite'' = ''readwrite''"
    by (simp add: lower_def lower_char_def)
  have good: "list_all (feature_ok example_catalog) (as_list ?good)"
    by (simp add: str lookup low del: py_str.simps)
  have bad: "\<not> list_all (feature_ok example_catalog) (as_list ?bad)"
    by (simp add: str lookup low del: py_str.simps)
  have accepted: "fst (test_feature [?good] ?dev) = Inr ()"
    using test_feature_accepts_iff [OF cat paired, of ?good None] good by simp
  from test_feature_accepts_iff [OF cat paired, of ?bad None] bad
  obtain reason where reason: "fst (test_feature (as_list ?bad) ?dev) = Inl (Exception reason)"
    and unsent: "sent (ws (snd (get ''/ro/values'' None (Some ''POST'') ?bad ?dev))) = sent (ws ?dev)"
    by auto
  have "fst (test_feature (as_list ?bad) ?dev)
          = Inl (Exception ''Unable to configure appliance. Value 150 is not a valid value. The value must be an integer in the range 0 and 100.'')"
    unfolding test_feature_verdict cat
    by (simp add: feature_verdict_def locate_feature_record str lookup check_access_def low
        check_values_def check_range_def str_int_def str_nat.simps digit_def del: py_str.simps)
  moreover have "sent (ws ?dev) = []"
    by (simp add: example_device_def init_def idle_socket_def)
  with unsent have "sent (ws (snd (get ''/ro/values'' None (Some ''POST'') ?bad ?dev))) = []"
    by (rule trans)
  ultimately show ?thesis
    using accepted by (simp del: test_feature.simps)
qed

section \<open>The version of an outbound request\<close>

text \<open>
  Claim C4, as stated, fails: \<^verbatim>\<open>get\<close> cannot tell a version the caller gave from the
  default, and once the services are discovered it replaces either by the version of
  the service table. With \<^verbatim>\<open>ci\<close> at version 3 in the table, the call
  \<^verbatim>\<open>get("/ci/authentication", version=2, data={"nonce": ...})\<close> of \<^verbatim>\<open>reconnect\<close> goes out with
  version 3, not 2.
\<close>

theorem explicit_version_counterexample:
  "sent (ws (snd (get ''/ci/authentication'' (Some (JInt 2)) None
                      (JObj [(''nonce'', JStr ''c2VjcmV0'')]) discovered_device)))
     = [JObj [(''sID'', JInt 77), (''msgID'', JInt 100), (''resource'', JStr ''/ci/authentication''),
              (''version'', JInt 3), (''action'', JStr ''GET''),
              (''data'', JArr [JObj [(''nonce'', JStr ''c2VjcmV0'')]])]]"
  by (simp add: get_def resolve_version_def validate_def bind_def try_send_def send_def
      ws_send.simps increment_tx_msg_id_def discovered_device_def example_device_def init_def
      idle_socket_def)

text \<open>
  Claim C4, amended. For a request that is sent (no payload, or a payload that passes
  validation) on a session whose message counter is an integer: once the services are
  discovered and the segment after the first slash of the resource is in the service
  table, the envelope carries the version of the table, whatever version the caller
  gave or left out; when the segment is not in the table, the envelope carries the
  caller's version (1 if none was given), \<^verbatim>\<open>ERROR service not known\<close> is printed and the
  call completes; before the services are discovered the envelope carries the caller's
  version. In particular, after a services-list response
  \<^verbatim>\<open>[{"service": "ci", "version": 3}]\<close> the flag is set, \<^verbatim>\<open>ci\<close> has version 3, and a
  request to \<^verbatim>\<open>/ci/info\<close> without a version is sent with version 3.
\<close>

theorem get_version_from_services:
  assumes "tx_msg_id d = JInt n"
    and "data = JNull \<or> fst (validate resource (action_or_default action_arg) (as_list data) d) = Inr ()"
  shows "(\<forall>a service rest v.
           services_initialized d \<and> split CHR ''/'' resource = a # service # rest
           \<and> map_of (services d) (JStr service) = Some v \<longrightarrow>
           sent (ws (snd (get resource version_arg action_arg data d)))
             = sent (ws d) @ [envelope (session_id d) (JInt n) resource v
                                       (action_or_default action_arg) data])
   \<and> (\<forall>a service rest.
           services_initialized d \<and> split CHR ''/'' resource = a # service # rest
           \<and> map_of (services d) (JStr service) = None \<longrightarrow>
           fst (get resource version_arg action_arg data d) = Inr ()
           \<and> sent (ws (snd (get resource version_arg action_arg data d)))
             = sent (ws d) @ [envelope (session_id d) (JInt n) resource
                                       (version_or_default version_arg)
                                       (action_or_default action_arg) data]
           \<and> LogServiceNotKnown \<in> set (out (snd (get resource version_arg action_arg data d))))
   \<and> (\<not> services_initialized d \<longrightarrow>
           sent (ws (snd (get resource version_arg action_arg data d)))
             = sent (ws d) @ [envelope (session_id d) (JInt n) resource
                                       (version_or_default version_arg)
                                       (action_or_default action_arg) data])
   \<and> (\<forall>d0. tx_msg_id d0 = JInt n \<longrightarrow>
           services_initialized (snd (handle_message (Decodes (JObj services_list_ci)) d0))
           \<and> map_of (services (snd (handle_message (Decodes (JObj services_list_ci)) d0))) (JStr ''ci'')
               = Some (JInt 3)
           \<and> sent (ws (snd (get ''/ci/info'' None None JNull
                              (snd (handle_message (Decodes (JObj services_list_ci)) d0)))))
               = sent (ws d0) @ [envelope (session_id d0) (JInt n) ''/ci/info'' (JInt 3) ''GET'' JNull])"
proof -
  note sent = get_accepted(2) [OF assms(2), where version_arg = version_arg]
  have known: "\<forall>a service rest v.
           services_initialized d \<and> split CHR ''/'' resource = a # service # rest
           \<and> map_of (services d) (JStr service) = Some v \<longrightarrow>
           sent (ws (snd (get resource version_arg action_arg data d)))
             = sent (ws d) @ [envelope (session_id d) (JInt n) resource v
                                       (action_or_default action_arg) data]"
  proof (intro allI impI)
    fix a service rest v
    assume "services_initialized d \<and> split CHR ''/'' resource = a # service # rest
           \<and> map_of (services d) (JStr service) = Some v"
    then have "fst (resolve_version resource (version_or_default version_arg) d) = Inr v"
      by (simp add: resolve_version_known)
    from sent [OF this] assms(1)
    show "sent (ws (snd (get resource version_arg action_arg data d)))
             = sent (ws d) @ [envelope (session_id d) (JInt n) resource v
                                       (action_or_default action_arg) data]"
      by simp
  qed
  have unknown: "\<forall>a service rest.
           services_initialized d \<and> split CHR ''/'' resource = a # service # rest
           \<and> map_of (services d) (JStr service) = None \<longrightarrow>
           fst (get resource version_arg action_arg data d) = Inr ()
           \<and> sent (ws (snd (get resource version_arg action_arg data d)))
             = sent (ws d) @ [envelope (session_id d) (JInt n) resource
                                       (version_or_default version_arg)
                                       (action_or_default action_arg) data]
           \<and> LogServiceNotKnown \<in> set (out (snd (get resource version_arg action_arg data d)))"
  proof (intro allI impI)
    fix a service rest
    assume "services_initialized d \<and> split CHR ''/'' resource = a # service # rest
           \<and> map_of (services d) (JStr service) = None"
    then have rv: "resolve_version resource (version_or_default version_arg) d
        = (Inr (version_or_default version_arg), d\<lparr>out := out d @ [LogServiceNotKnown]\<rparr>)"
      by (simp add: resolve_version_unknown)
    then have v: "fst (resolve_version resource (version_or_default version_arg) d)
        = Inr (version_or_default version_arg)"
      by simp
    from get_out [of resource version_arg action_arg data d] rv
    have "LogServiceNotKnown \<in> set (out (snd (get resource version_arg action_arg data d)))"
      by auto
    moreover from get_accepted(1) [OF assms(2) v] assms(1)
    have "fst (get resource version_arg action_arg data d) = Inr ()" by simp
    ultimately show "fst (get resource version_arg action_arg data d) = Inr ()
           \<and> sent (ws (snd (get resource version_arg action_arg data d)))
             = sent (ws d) @ [envelope (session_id d) (JInt n) resource
                                       (version_or_default version_arg)
                                       (action_or_default action_arg) data]
           \<and> LogServiceNotKnown \<in> set (out (snd (get resource version_arg action_arg data d)))"
      using sent [OF v] assms(1) by simp
  qed
  have undiscovered: "\<not> services_initialized d \<longrightarrow>
           sent (ws (snd (get resource version_arg action_arg data d)))
             = sent (ws d) @ [envelope (session_id d) (JInt n) resource
                                       (version_or_default version_arg)
                                       (action_or_default action_arg) data]"
  proof
    assume "\<not> services_initialized d"
    then have "fst (resolve_version resource (version_or_default version_arg) d)
        = Inr (version_or_default version_arg)"
      by (simp add: resolve_version_undiscovered)
    from sent [OF this] assms(1)
    show "sent (ws (snd (get resource version_arg action_arg data d)))
             = sent (ws d) @ [envelope (session_id d) (JInt n) resource
                                       (version_or_default version_arg)
                                       (action_or_default action_arg) data]"
      by simp
  qed
  have example: "\<forall>d0. tx_msg_id d0 = JInt n \<longrightarrow>
           services_initialized (snd (handle_message (Decodes (JObj services_list_ci)) d0))
           \<and> map_of (services (snd (handle_message (Decodes (JObj services_list_ci)) d0))) (JStr ''ci'')
               = Some (JInt 3)
           \<and> sent (ws (snd (get ''/ci/info'' None None JNull
                              (snd (handle_message (Decodes (JObj services_list_ci)) d0)))))
               = sent (ws d0) @ [envelope (session_id d0) (JInt n) ''/ci/info'' (JInt 3) ''GET'' JNull]"
  proof (intro allI impI)
    fix d0 :: device
    assume n: "tx_msg_id d0 = JInt n"
    let ?d1 = "snd (handle_message (Decodes (JObj services_list_ci)) d0)"
    have d1: "?d1 = (if debug d0 then d0\<lparr>out := out d0 @ [LogRX (JObj services_list_ci)]\<rparr> else d0)
                      \<lparr>services := services_set (JStr ''ci'') (JInt 3) (services d0),
                       services_initialized := True\<rparr>"
      by (simp add: handle_message_def handle_response_def services_list_ci_def bind_def modify_def print_def)
    have flag: "services_initialized ?d1" by (simp add: d1)
    have table: "map_of (services ?d1) (JStr ''ci'') = Some (JInt 3)"
      by (simp add: d1 map_of_services_set)
    have parts: "split CHR ''/'' ''/ci/info'' = [] # ''ci'' # [''info'']" by simp
    have "fst (resolve_version ''/ci/info'' (version_or_default None) ?d1) = Inr (JInt 3)"
      using resolve_version_known [OF flag parts table] by simp
    from get_accepted(2) [OF _ this, where data = JNull and action_arg = None] n
    have "sent (ws (snd (get ''/ci/info'' None None JNull ?d1)))
            = sent (ws d0) @ [envelope (session_id d0) (JInt n) ''/ci/info'' (JInt 3) ''GET'' JNull]"
      by (simp add: d1 action_or_default_def)
    with flag table
    show "services_initialized ?d1
           \<and> map_of (services ?d1) (JStr ''ci'') = Some (JInt 3)
           \<and> sent (ws (snd (get ''/ci/info'' None None JNull ?d1)))
               = sent (ws d0) @ [envelope (session_id d0) (JInt n) ''/ci/info'' (JInt 3) ''GET'' JNull]"
      by blast
  qed
  from known unknown undiscovered example show ?thesis by blast
qed

theorem get_version_from_services_witness:
  "sent (ws (snd (get ''/ci/info'' None None JNull discovered_device)))
     = [JObj [(''sID'', JInt 77), (''msgID'', JInt 100), (''resource'', JStr ''/ci/info''),
              (''version'', JInt 3), (''action'', JStr ''GET'')]]
   \<and> fst (get ''/iz/info'' None None JNull discovered_device) = Inr ()
   \<and> sent (ws (snd (get ''/iz/info'' None None JNull discovered_device)))
     = [JObj [(''sID'', JInt 77), (''msgID'', JInt 100), (''resource'', JStr ''/iz/info''),
              (''version'', JInt 1), (''action'', JStr ''GET'')]]
   \<and> LogServiceNotKnown \<in> set (out (snd (get ''/iz/info'' None None JNull discovered_device)))"
proof -
  have n: "tx_msg_id discovered_device = JInt 100"
    and flag: "services_initialized discovered_device"
    and sid: "session_id discovered_device = JInt 77"
    and nil: "sent (ws discovered_device) = []"
    and ci: "map_of (services discovered_device) (JStr ''ci'') = Some (JInt 3)"
    and iz: "map_of (services discovered_device) (JStr ''iz'') = None"
    by (simp_all add: discovered_device_def example_device_def init_def idle_socket_def)
  have ci_parts: "split CHR ''/'' ''/ci/info'' = [] # ''ci'' # [''info'']"
    and iz_parts: "split CHR ''/'' ''/iz/info'' = [] # ''iz'' # [''info'']"
    by simp_all
  from get_version_from_services [OF n, of JNull "''/ci/info''" None None] flag ci_parts ci
  have one: "sent (ws (snd (get ''/ci/info'' None None JNull discovered_device)))
     = sent (ws discovered_device)
         @ [envelope (session_id discovered_device) (JInt 100) ''/ci/info'' (JInt 3)
                     (action_or_default None) JNull]"
    by blast
  from get_version_from_services [OF n, of JNull "''/iz/info''" None None] flag iz_parts iz
  have two: "fst (get ''/iz/info'' None None JNull discovered_device) = Inr ()
     \<and> sent (ws (snd (get ''/iz/info'' None None JNull discovered_device)))
       = sent (ws discovered_device)
           @ [envelope (session_id discovered_device) (JInt 100) ''/iz/info''
                       (version_or_default None) (action_or_default None) JNull]
     \<and> LogServiceNotKnown \<in> set (out (snd (get ''/iz/info'' None None JNull discovered_device)))"
    by blast
  from one two show ?thesis
    by (simp add: sid nil envelope_def version_or_default_def action_or_default_def)
qed

section \<open>Normalization of value reports\<close>

text \<open>
  Claim C5, as stated, fails: when no descriptor exists, the output key is not the raw
  uid but the string of the uid after the same trimming that is applied to a name. A
  record whose uid is the string \<^verbatim>\<open>BSH.Common.Status.OperationState\<close>, which the catalog
  does not have, comes out under the key \<^verbatim>\<open>OperationState\<close>.
\<close>

theorem raw_uid_key_counterexample:
  "map_of example_catalog (py_str (JStr ''BSH.Common.Status.OperationState'')) = None
   \<and> parse_values (Some example_catalog)
        (JArr [JObj [(''uid'', JStr ''BSH.Common.Status.OperationState''), (''value'', JInt 3)]])
     = Inr (JObj [(''OperationState'', JInt 3)])"
  by (simp add: parse_values_def parse_value_def example_catalog_def trim_name_def
      str_int_def str_nat.simps digit_def)

text \<open>
  Claim C5, amended. Without a catalog (\<^verbatim>\<open>None\<close>, or an empty one) \<^verbatim>\<open>parse_values\<close>
  returns its argument. With a catalog, a record \<^verbatim>\<open>{uid, value}\<close> contributes one key
  and one value. If the string of the uid is in the catalog, the key is the trimmed
  name of the descriptor and the value is the label when the descriptor has an
  enumeration with the string of the raw value as a key, the raw value otherwise. If it
  is not, the key is the trimmed string of the uid, and the value is the raw value.
  Trimming leaves the string of an integer-typed uid as it is, and takes from a name
  without a line break everything up to and including its last dot. The result is a
  dictionary in which a key has the value of the last record that contributed it.
\<close>

theorem parse_values_normalizes:
  "parse_values None vals = Inr vals
   \<and> parse_values (Some []) vals = Inr vals
   \<and> (\<forall>uid value status.
         map_of kvs ''uid'' = Some uid \<and> map_of kvs ''value'' = Some value
         \<and> map_of fs (py_str uid) = Some status \<longrightarrow>
         parse_value fs (JObj kvs)
           = Inr (trim_name (f_name status),
                  (case f_values status of
                     None \<Rightarrow> value
                   | Some vs \<Rightarrow> (case map_of vs (py_str value) of
                                   None \<Rightarrow> value | Some label \<Rightarrow> JStr label))))
   \<and> (\<forall>uid value.
         map_of kvs ''uid'' = Some uid \<and> map_of kvs ''value'' = Some value
         \<and> map_of fs (py_str uid) = None \<longrightarrow>
         parse_value fs (JObj kvs) = Inr (trim_name (py_str uid), value))
   \<and> (\<forall>uid. is_int uid \<longrightarrow> trim_name (py_str uid) = py_str uid)
   \<and> (\<forall>nm. CHR 0x0A \<notin> set nm \<longrightarrow>
         trim_name nm = rev (takeWhile (\<lambda>c. c \<noteq> CHR ''.'') (rev nm)))
   \<and> (\<forall>entries.
         fs \<noteq> [] \<and> list_all2 (\<lambda>msg e. parse_value fs msg = Inr e) msgs entries \<longrightarrow>
         (\<exists>result. parse_values (Some fs) (JArr msgs) = Inr (JObj result)
                    \<and> map_of result = map_of (rev entries)))"
proof -
  have none: "parse_values None vals = Inr vals"
    by (simp add: parse_values_def)
  have empty: "parse_values (Some []) vals = Inr vals"
    by (simp add: parse_values_def)
  have known: "\<forall>uid value status.
         map_of kvs ''uid'' = Some uid \<and> map_of kvs ''value'' = Some value
         \<and> map_of fs (py_str uid) = Some status \<longrightarrow>
         parse_value fs (JObj kvs)
           = Inr (trim_name (f_name status),
                  (case f_values status of
                     None \<Rightarrow> value
                   | Some vs \<Rightarrow> (case map_of vs (py_str value) of
                                   None \<Rightarrow> value | Some label \<Rightarrow> JStr label)))"
    by (simp add: parse_value_def)
  have unknown: "\<forall>uid value.
         map_of kvs ''uid'' = Some uid \<and> map_of kvs ''value'' = Some value
         \<and> map_of fs (py_str uid) = None \<longrightarrow>
         parse_value fs (JObj kvs) = Inr (trim_name (py_str uid), value)"
    by (simp add: parse_value_def)
  have ints: "\<forall>uid. is_int uid \<longrightarrow> trim_name (py_str uid) = py_str uid"
    by (simp add: trim_name_no_dot py_str_int_no_dot)
  have names: "\<forall>nm. CHR 0x0A \<notin> set nm \<longrightarrow>
         trim_name nm = rev (takeWhile (\<lambda>c. c \<noteq> CHR ''.'') (rev nm))"
    by (simp add: trim_name_one_line)
  have dict: "\<forall>entries.
         fs \<noteq> [] \<and> list_all2 (\<lambda>msg e. parse_value fs msg = Inr e) msgs entries \<longrightarrow>
         (\<exists>result. parse_values (Some fs) (JArr msgs) = Inr (JObj result)
                    \<and> map_of result = map_of (rev entries))"
  proof (intro allI impI)
    fix entries
    assume a: "fs \<noteq> [] \<and> list_all2 (\<lambda>msg e. parse_value fs msg = Inr e) msgs entries"
    then have "parse_loop fs msgs [] = Inr (fold (\<lambda>e. dict_set (fst e) (snd e)) entries [])"
      by (simp add: parse_loop_entries)
    with a have "parse_values (Some fs) (JArr msgs)
        = Inr (JObj (fold (\<lambda>e. dict_set (fst e) (snd e)) entries []))"
      by (simp add: parse_values_def)
    moreover have "map_of (fold (\<lambda>e. dict_set (fst e) (snd e)) entries []) = map_of (rev entries)"
      by (simp add: map_of_fold_dict_set)
    ultimately show "\<exists>result. parse_values (Some fs) (JArr msgs) = Inr (JObj result)
                    \<and> map_of result = map_of (rev entries)"
      by blast
  qed
  from none empty known unknown ints names dict show ?thesis by blast
qed

theorem parse_values_normalizes_witness:
  "parse_value example_catalog (JObj [(''uid'', JInt 539), (''value'', JInt 1)])
     = Inr (''PowerState'', JStr ''On'')
   \<and> parse_value example_catalog (JObj [(''uid'', JInt 4711), (''value'', JInt 3)])
     = Inr (''4711'', JInt 3)
   \<and> parse_values (Some example_catalog)
        (JArr [JObj [(''uid'', JInt 539), (''value'', JInt 1)],
               JObj [(''uid'', JInt 4711), (''value'', JInt 3)]])
     = Inr (JObj [(''PowerState'', JStr ''On''), (''4711'', JInt 3)])"
proof -
  have str: "py_str (JInt 539) = ''539''" "py_str (JInt 4711) = ''4711''" "py_str (JInt 1) = ''1''"
    by (simp_all add: str_int_def str_nat.simps digit_def)
  have switch: "map_of example_catalog ''539''
      = Some \<lparr>f_name = ''BSH.Common.Setting.PowerState'', f_access = Some ''readWrite'',
               f_values = Some [(''0'', ''Off''), (''1'', ''On'')], f_min = None, f_max = None\<rparr>"
    by (simp add: example_catalog_def)
  have other: "map_of example_catalog ''4711'' = None"
    by (simp add: example_catalog_def)
  have trimmed: "trim_name ''BSH.Common.Setting.PowerState'' = ''PowerState''"
    by (simp add: trim_name_def)
  have one: "parse_value example_catalog (JObj [(''uid'', JInt 539), (''value'', JInt 1)])
     = Inr (''PowerState'', JStr ''On'')"
    using parse_values_normalizes [of JNull "[(''uid'', JInt 539), (''value'', JInt 1)]" example_catalog "[]"]
    by (simp add: str switch trimmed del: py_str.simps)
  have two: "parse_value example_catalog (JObj [(''uid'', JInt 4711), (''value'', JInt 3)])
     = Inr (''4711'', JInt 3)"
    using parse_values_normalizes [of JNull "[(''uid'', JInt 4711), (''value'', JInt 3)]" example_catalog "[]"]
    by (simp add: str other del: py_str.simps)
  from one two show ?thesis
    by (simp add: parse_values_def example_catalog_def)
qed

section \<open>Program-activation validation\<close>

text \<open>
  Claim C6. \<^verbatim>\<open>test_program_data\<close> accepts a batch exactly when every record has an
  integer-typed \<^verbatim>\<open>program\<close> whose string is in the catalog with a name that contains
  \<^verbatim>\<open>.Program.\<close> and, if the record has \<^verbatim>\<open>options\<close>, every option's uid is in the
  catalog; otherwise it raises. For a record that is a dictionary: a missing
  \<^verbatim>\<open>program\<close> and a \<^verbatim>\<open>program\<close> that is not an integer raise a \<^verbatim>\<open>TypeError\<close>, an id
  that is not in the catalog raises a \<^verbatim>\<open>ValueError\<close>, and so does an id that is in the
  catalog under a name without the marker. The condition on an option mentions its
  uid only: neither access level nor range of the option's descriptor is checked.
\<close>

theorem test_program_data_accepts_iff:
  "(test_program_data cat batch = Inr () \<longleftrightarrow> list_all (program_ok cat) batch)
   \<and> ((\<exists>data \<in> set batch. \<not> program_ok cat data) \<longrightarrow> (\<exists>e. test_program_data cat batch = Inl e))
   \<and> (map_of kvs ''program'' = None \<longrightarrow>
        test_program cat (JObj kvs) = Inl (TypeError ''Message data invalid, no program specified.''))
   \<and> (\<forall>p. map_of kvs ''program'' = Some p \<and> \<not> is_int p \<longrightarrow>
        test_program cat (JObj kvs)
          = Inl (TypeError (''Message data invalid, UID in '' @ [CHR 0x27] @ ''program'' @ [CHR 0x27]
                            @ '' must be an integer.'')))
   \<and> (\<forall>p. map_of kvs ''program'' = Some p \<and> is_int p \<and> map_of fs (py_str p) = None \<longrightarrow>
        test_program (Some fs) (JObj kvs)
          = Inl (ValueError (''Unable to configure appliance. Program UID '' @ py_str p
                             @ '' is not valid for this device.'')))
   \<and> (\<forall>p feature. map_of kvs ''program'' = Some p \<and> is_int p
          \<and> map_of fs (py_str p) = Some feature
          \<and> \<not> contains_sub ''.Program.'' (f_name feature) \<longrightarrow>
        test_program (Some fs) (JObj kvs)
          = Inl (ValueError (''Unable to configure appliance. Program UID '' @ py_str p
                             @ '' is not a valid program - '' @ f_name feature @ ''.'')))"
proof -
  have iff: "test_program_data cat batch = Inr () \<longleftrightarrow> list_all (program_ok cat) batch"
    by (simp add: test_program_data_def for_each_Inr test_program_iff)
  have raises: "(\<exists>data \<in> set batch. \<not> program_ok cat data) \<longrightarrow> (\<exists>e. test_program_data cat batch = Inl e)"
  proof
    assume "\<exists>data \<in> set batch. \<not> program_ok cat data"
    then have "test_program_data cat batch \<noteq> Inr ()"
      by (auto simp: iff list_all_iff)
    then show "\<exists>e. test_program_data cat batch = Inl e"
      by (cases "test_program_data cat batch") auto
  qed
  have absent: "map_of kvs ''program'' = None \<longrightarrow>
        test_program cat (JObj kvs) = Inl (TypeError ''Message data invalid, no program specified.'')"
    by (simp add: test_program_def in_keys_iff)
  have not_int: "\<forall>p. map_of kvs ''program'' = Some p \<and> \<not> is_int p \<longrightarrow>
        test_program cat (JObj kvs)
          = Inl (TypeError (''Message data invalid, UID in '' @ [CHR 0x27] @ ''program'' @ [CHR 0x27]
                            @ '' must be an integer.''))"
    by (simp add: test_program_def in_keys_iff)
  have unknown: "\<forall>p. map_of kvs ''program'' = Some p \<and> is_int p \<and> map_of fs (py_str p) = None \<longrightarrow>
        test_program (Some fs) (JObj kvs)
          = Inl (ValueError (''Unable to configure appliance. Program UID '' @ py_str p
                             @ '' is not valid for this device.''))"
    by (simp add: test_program_def in_keys_iff Let_def)
  have no_marker: "\<forall>p feature. map_of kvs ''program'' = Some p \<and> is_int p
          \<and> map_of fs (py_str p) = Some feature
          \<and> \<not> contains_sub ''.Program.'' (f_name feature) \<longrightarrow>
        test_program (Some fs) (JObj kvs)
          = Inl (ValueError (''Unable to configure appliance. Program UID '' @ py_str p
                             @ '' is not a valid program - '' @ f_name feature @ ''.''))"
    by (simp add: test_program_def in_keys_iff Let_def)
  from iff raises absent not_int unknown no_marker show ?thesis by blast
qed

theorem test_program_data_accepts_iff_witness:
  "test_program_data (Some example_catalog)
     [JObj [(''program'', JInt 8196), (''options'', JArr [JObj [(''uid'', JInt 527), (''value'', JInt 7)]])]]
     = Inr ()
   \<and> test_program (Some example_catalog) (JObj [(''program'', JInt 539)])
     = Inl (ValueError ''Unable to configure appliance. Program UID 539 is not a valid program - BSH.Common.Setting.PowerState.'')"
  using test_program_data_accepts_iff [of "Some example_catalog"
      "[JObj [(''program'', JInt 8196), (''options'', JArr [JObj [(''uid'', JInt 527), (''value'', JInt 7)]])]]"
      "[(''program'', JInt 539)]" example_catalog]
  by (simp add: example_catalog_def str_int_def str_nat.simps digit_def)

section \<open>The receive wrapper\<close>

text \<open>
  Claim C7, as stated, fails: \<^verbatim>\<open>recv\<close> does let an error out. Its two handlers are
  \<^verbatim>\<open>except Exception\<close>, and \<^verbatim>\<open>KeyboardInterrupt\<close> and \<^verbatim>\<open>SystemExit\<close> are not derived from
  \<^verbatim>\<open>Exception\<close>. When the blocking read of the socket is interrupted, the
  \<^verbatim>\<open>KeyboardInterrupt\<close> leaves \<^verbatim>\<open>recv\<close>: no \<^verbatim>\<open>None\<close> is returned and nothing is printed.
\<close>

theorem recv_interrupt_counterexample:
  "recv (listening_device [RxRaise KeyboardInterrupt]) = (Inl KeyboardInterrupt, new_device)
   \<and> out new_device = []"
  by (simp add: recv_def listening_device_def new_device_def init_def scripted_socket_def
      idle_socket_def)

text \<open>
  Claim C7, amended. \<^verbatim>\<open>recv\<close> never lets out an error that is derived from \<^verbatim>\<open>Exception\<close>:
  the error it raises, if any, is one that is not derived from \<^verbatim>\<open>Exception\<close> and that
  the socket's \<^verbatim>\<open>recv\<close> or \<^verbatim>\<open>handle_message\<close> raised. At the end of the stream (the socket
  returns \<^verbatim>\<open>None\<close>) it returns \<^verbatim>\<open>None\<close> and prints nothing. When the socket raises an
  error derived from \<^verbatim>\<open>Exception\<close> it prints the error and returns \<^verbatim>\<open>None\<close>; any other
  error of the socket leaves \<^verbatim>\<open>recv\<close> and nothing is printed. When \<^verbatim>\<open>handle_message\<close>
  raises an error derived from \<^verbatim>\<open>Exception\<close>, on decoding or later, it prints the error
  with the buffer and returns \<^verbatim>\<open>None\<close>; what \<^verbatim>\<open>handle_message\<close> returns, it returns. A
  buffer that does not decode leaves the Session State as it was: only the socket's
  queue and the printed lines change.
\<close>

theorem recv_catches_Exception:
  "(fst (recv d) = Inl e \<longleftrightarrow>
      \<not> is_Exception e
      \<and> ((\<exists>r. rx (ws d) = RxRaise e # r)
         \<or> (\<exists>buf r. rx (ws d) = RxFrame buf # r
                \<and> fst (handle_message buf (d\<lparr>ws := (ws d)\<lparr>rx := r\<rparr>\<rparr>)) = Inl e)))
   \<and> (rx (ws d) = [] \<longrightarrow> recv d = (Inr JNull, d))
   \<and> (\<forall>r. rx (ws d) = RxNone # r \<longrightarrow> recv d = (Inr JNull, d\<lparr>ws := (ws d)\<lparr>rx := r\<rparr>\<rparr>))
   \<and> (\<forall>r x. rx (ws d) = RxRaise x # r \<longrightarrow> is_Exception x \<longrightarrow>
          recv d = (Inr JNull, d\<lparr>ws := (ws d)\<lparr>rx := r\<rparr>,
                                  out := out d @ [LogReceiveError x]\<rparr>))
   \<and> (\<forall>r x. rx (ws d) = RxRaise x # r \<longrightarrow> \<not> is_Exception x \<longrightarrow>
          recv d = (Inl x, d\<lparr>ws := (ws d)\<lparr>rx := r\<rparr>\<rparr>))
   \<and> (\<forall>r buf x d'. rx (ws d) = RxFrame buf # r \<longrightarrow>
          handle_message buf (d\<lparr>ws := (ws d)\<lparr>rx := r\<rparr>\<rparr>) = (Inl x, d') \<longrightarrow>
          is_Exception x \<longrightarrow>
          recv d = (Inr JNull, d'\<lparr>out := out d' @ [LogErrorHandlingMsg x buf]\<rparr>))
   \<and> (\<forall>r buf values d'. rx (ws d) = RxFrame buf # r \<longrightarrow>
          handle_message buf (d\<lparr>ws := (ws d)\<lparr>rx := r\<rparr>\<rparr>) = (Inr values, d') \<longrightarrow>
          recv d = (Inr values, d'))
   \<and> (\<forall>r. rx (ws d) = RxFrame Undecodable # r \<longrightarrow>
          recv d = (Inr JNull, d\<lparr>ws := (ws d)\<lparr>rx := r\<rparr>,
                                  out := out d @ [LogErrorHandlingMsg JSONDecodeError Undecodable]\<rparr>)
          \<and> session (snd (recv d)) = session d)"
proof -
  have raises: "fst (recv d) = Inl e \<longleftrightarrow>
      \<not> is_Exception e
      \<and> ((\<exists>r. rx (ws d) = RxRaise e # r)
         \<or> (\<exists>buf r. rx (ws d) = RxFrame buf # r
                \<and> fst (handle_message buf (d\<lparr>ws := (ws d)\<lparr>rx := r\<rparr>\<rparr>)) = Inl e))"
  proof (cases "rx (ws d)")
    case Nil
    then show ?thesis by (simp add: recv_def)
  next
    case (Cons ev r)
    show ?thesis
    proof (cases ev)
      case RxNone
      with Cons show ?thesis by (simp add: recv_def)
    next
      case (RxRaise x)
      with Cons show ?thesis by (auto simp: recv_def)
    next
      case (RxFrame buf)
      obtain res d' where h: "handle_message buf (d\<lparr>ws := (ws d)\<lparr>rx := r\<rparr>\<rparr>) = (res, d')"
        by (cases "handle_message buf (d\<lparr>ws := (ws d)\<lparr>rx := r\<rparr>\<rparr>)")
      with Cons RxFrame show ?thesis by (cases res) (auto simp: recv_def)
    qed
  qed
  have undecodable: "handle_message Undecodable d1 = (Inl JSONDecodeError, d1)" for d1
    by (simp add: handle_message_def)
  have rest: "(rx (ws d) = [] \<longrightarrow> recv d = (Inr JNull, d))
   \<and> (\<forall>r. rx (ws d) = RxNone # r \<longrightarrow> recv d = (Inr JNull, d\<lparr>ws := (ws d)\<lparr>rx := r\<rparr>\<rparr>))
   \<and> (\<forall>r x. rx (ws d) = RxRaise x # r \<longrightarrow> is_Exception x \<longrightarrow>
          recv d = (Inr JNull, d\<lparr>ws := (ws d)\<lparr>rx := r\<rparr>,
                                  out := out d @ [LogReceiveError x]\<rparr>))
   \<and> (\<forall>r x. rx (ws d) = RxRaise x # r \<longrightarrow> \<not> is_Exception x \<longrightarrow>
          recv d = (Inl x, d\<lparr>ws := (ws d)\<lparr>rx := r\<rparr>\<rparr>))
   \<and> (\<forall>r buf x d'. rx (ws d) = RxFrame buf # r \<longrightarrow>
          handle_message buf (d\<lparr>ws := (ws d)\<lparr>rx := r\<rparr>\<rparr>) = (Inl x, d') \<longrightarrow>
          is_Exception x \<longrightarrow>
          recv d = (Inr JNull, d'\<lparr>out := out d' @ [LogErrorHandlingMsg x buf]\<rparr>))
   \<and> (\<forall>r buf values d'. rx (ws d) = RxFrame buf # r \<longrightarrow>
          handle_message buf (d\<lparr>ws := (ws d)\<lparr>rx := r\<rparr>\<rparr>) = (Inr values, d') \<longrightarrow>
          recv d = (Inr values, d'))
   \<and> (\<forall>r. rx (ws d) = RxFrame Undecodable # r \<longrightarrow>
          recv d = (Inr JNull, d\<lparr>ws := (ws d)\<lparr>rx := r\<rparr>,
                                  out := out d @ [LogErrorHandlingMsg JSONDecodeError Undecodable]\<rparr>)
          \<and> session (snd (recv d)) = session d)"
    by (auto simp: recv_def undecodable session_def)
  from raises rest show ?thesis by blast
qed

theorem recv_catches_Exception_witness:
  "recv (listening_device [RxRaise TransportError])
     = (Inr JNull, new_device\<lparr>out := [LogReceiveError TransportError]\<rparr>)
   \<and> recv (listening_device [RxRaise SystemExit]) = (Inl SystemExit, new_device)
   \<and> recv (listening_device [RxFrame (Decodes (JObj []))])
       = (Inr JNull, new_device\<lparr>out := [LogErrorHandlingMsg (KeyError (JStr ''resource''))
                                                              (Decodes (JObj []))]\<rparr>)
   \<and> recv (listening_device [RxFrame Undecodable])
       = (Inr JNull, new_device\<lparr>out := [LogErrorHandlingMsg JSONDecodeError Undecodable]\<rparr>)
   \<and> session (snd (recv (listening_device [RxFrame Undecodable])))
       = (JNull, JNull, False, [], JNull)"
proof -
  have queue: "rx (ws (listening_device evs)) = evs"
    and rest: "(listening_device evs)\<lparr>ws := (ws (listening_device evs))\<lparr>rx := []\<rparr>\<rparr> = new_device"
    and log: "out (listening_device evs) = []" "out new_device = []"
    and empty: "session (listening_device evs) = (JNull, JNull, False, [], JNull)"
      "session (new_device\<lparr>out := lines\<rparr>) = (JNull, JNull, False, [], JNull)" for evs lines
    by (simp_all add: listening_device_def new_device_def init_def scripted_socket_def
        idle_socket_def session_def)
  have missing: "handle_message (Decodes (JObj [])) new_device
      = (Inl (KeyError (JStr ''resource'')), new_device)"
    by (simp add: handle_message_def bind_def lift_def new_device_def init_def)
  from recv_catches_Exception [of "listening_device [RxRaise TransportError]"]
  have a: "recv (listening_device [RxRaise TransportError])
     = (Inr JNull, new_device\<lparr>out := [LogReceiveError TransportError]\<rparr>)"
    by (simp add: queue rest log)
  from recv_catches_Exception [of "listening_device [RxRaise SystemExit]"]
  have b: "recv (listening_device [RxRaise SystemExit]) = (Inl SystemExit, new_device)"
    by (simp add: queue rest)
  from recv_catches_Exception [of "listening_device [RxFrame (Decodes (JObj []))]"]
  have c: "recv (listening_device [RxFrame (Decodes (JObj []))])
       = (Inr JNull, new_device\<lparr>out := [LogErrorHandlingMsg (KeyError (JStr ''resource''))
                                                              (Decodes (JObj []))]\<rparr>)"
    by (simp add: queue rest log missing)
  from recv_catches_Exception [of "listening_device [RxFrame Undecodable]"]
  have d: "recv (listening_device [RxFrame Undecodable])
       = (Inr JNull, new_device\<lparr>out := [LogErrorHandlingMsg JSONDecodeError Undecodable]\<rparr>)
     \<and> session (snd (recv (listening_device [RxFrame Undecodable])))
       = (JNull, JNull, False, [], JNull)"
    by (simp add: queue rest log empty)
  from a b c d show ?thesis by blast
qed

section \<open>Device-reported errors\<close>

text \<open>
  Claim C8. For every well-formed inbound message (an object with a \<^verbatim>\<open>resource\<close> and an
  \<^verbatim>\<open>action\<close> field) that has a \<^verbatim>\<open>code\<close> field, \<^verbatim>\<open>handle_message\<close> returns exactly
  \<^verbatim>\<open>{"error": code, "resource": resource}\<close> and takes no other branch: the Session State
  and the socket are as before, nothing is sent, and the only thing that may change is
  the debug line printed before the routing.
\<close>

theorem handle_message_code:
  assumes "map_of kvs ''resource'' = Some resource"
    and "map_of kvs ''action'' = Some action"
    and "map_of kvs ''code'' = Some code"
  shows "fst (handle_message (Decodes (JObj kvs)) d)
           = Inr (JObj [(''error'', code), (''resource'', resource)])
         \<and> session (snd (handle_message (Decodes (JObj kvs)) d)) = session d
         \<and> ws (snd (handle_message (Decodes (JObj kvs)) d)) = ws d
         \<and> snd (handle_message (Decodes (JObj kvs)) d)
             = (if debug d then d\<lparr>out := out d @ [LogRX (JObj kvs)]\<rparr> else d)"
  using assms by (simp add: handle_message_def map_of_in_keys session_def bind_if_debug)

theorem handle_message_code_witness:
  "fst (handle_message (Decodes (JObj error_envelope)) (init idle_socket None ''oven'' (\<lambda>n. [])))
     = Inr (JObj [(''error'', JInt 404), (''resource'', JStr ''/ro/values'')])
   \<and> session (snd (handle_message (Decodes (JObj error_envelope))
                     (init idle_socket None ''oven'' (\<lambda>n. []))))
     = (JNull, JNull, False, [], JNull)"
  using handle_message_code [of error_envelope "JStr ''/ro/values''" "JStr ''RESPONSE''" "JInt 404"
      "init idle_socket None ''oven'' (\<lambda>n. [])"]
  by (simp add: error_envelope_def session_def init_def)

section \<open>A rejected payload does not use up a message id\<close>

text \<open>
  Claim C9. When the write validation raises inside \<^verbatim>\<open>get\<close> (a POST to
  \<^verbatim>\<open>/ro/values\<close> whose payload \<^verbatim>\<open>test_feature\<close> rejects, or a POST to
  \<^verbatim>\<open>/ro/activeProgram\<close> whose payload \<^verbatim>\<open>test_program_data\<close> rejects), \<^verbatim>\<open>get\<close> raises
  that exception, \<^verbatim>\<open>tx_msg_id\<close> is what it was, and \<^verbatim>\<open>ws.send\<close> has not been called:
  the send and the increment come after the validation and are not reached.
\<close>

theorem get_rejected_keeps_tx_msg_id:
  assumes "data \<noteq> JNull"
    and "(resource = ''/ro/values'' \<and> fst (test_feature (as_list data) d) = Inl e)
         \<or> (resource = ''/ro/activeProgram''
             \<and> test_program_data (features d) (as_list data) = Inl e)"
  shows "fst (get resource version_arg (Some ''POST'') data d) = Inl e
         \<and> tx_msg_id (snd (get resource version_arg (Some ''POST'') data d)) = tx_msg_id d
         \<and> sent (ws (snd (get resource version_arg (Some ''POST'') data d))) = sent (ws d)"
proof -
  from assms(2) have "fst (validate resource (action_or_default (Some ''POST'')) (as_list data) d) = Inl e"
    by (auto simp: validate_def action_or_default_def lift_def)
  from get_rejected [OF assms(1) this, of version_arg]
  show ?thesis by (simp add: session_def)
qed

theorem get_rejected_keeps_tx_msg_id_witness:
  "fst (get ''/ro/values'' None (Some ''POST'') (JObj [(''uid'', JInt 4711), (''value'', JInt 1)])
          (example_device idle_socket))
     = Inl (Exception ''Unable to configure appliance. UID 4711 is not valid.'')
   \<and> tx_msg_id (snd (get ''/ro/values'' None (Some ''POST'')
                        (JObj [(''uid'', JInt 4711), (''value'', JInt 1)])
                        (example_device idle_socket))) = JInt 100
   \<and> sent (ws (snd (get ''/ro/values'' None (Some ''POST'')
                        (JObj [(''uid'', JInt 4711), (''value'', JInt 1)])
                        (example_device idle_socket)))) = []"
proof -
  have "fst (test_feature (as_list (JObj [(''uid'', JInt 4711), (''value'', JInt 1)]))
               (example_device idle_socket))
          = Inl (Exception ''Unable to configure appliance. UID 4711 is not valid.'')"
    unfolding test_feature_verdict
    by (simp add: feature_verdict_def locate_feature_def example_device_def
        init_def example_catalog_def str_int_def str_nat.simps digit_def)
  then show ?thesis
    using get_rejected_keeps_tx_msg_id [of "JObj [(''uid'', JInt 4711), (''value'', JInt 1)]"
        "''/ro/values''" "example_device idle_socket"
        "Exception ''Unable to configure appliance. UID 4711 is not valid.''" None]
    by (simp add: example_device_def init_def idle_socket_def)
qed

section \<open>A descriptor with a lower bound and no upper bound\<close>

text \<open>
  Claim C10, as stated, fails: not every record whose descriptor has \<^verbatim>\<open>min\<close> and lacks
  \<^verbatim>\<open>max\<close> ends in a key-lookup error, because the checks before the range check come
  first. The record \<^verbatim>\<open>{"uid": 544, "value": 5}\<close> addresses such a descriptor, but the
  descriptor is read-only and validation fails with the validation error of the access
  check, which carries its reason.
\<close>

theorem missing_max_counterexample:
  "map_option f_min (map_of open_range_catalog ''544'') = Some (Some 0)
   \<and> map_option f_max (map_of open_range_catalog ''544'') = Some None
   \<and> fst (test_feature [JObj [(''uid'', JInt 544), (''value'', JInt 5)]]
            ((example_device idle_socket)\<lparr>features := Some open_range_catalog\<rparr>))
     = Inl (Exception ''Unable to configure appliance. Feature BSH.Common.Option.RemainingProgramTime with uid 544 has got access read.'')"
  unfolding test_feature_verdict
  by (simp add: feature_verdict_def locate_feature_def check_access_def
      example_device_def init_def open_range_catalog_def str_int_def str_nat.simps
      digit_def lower_def lower_char_def char_of_eq_iff)

text \<open>
  Claim C10, amended. The range block looks for \<^verbatim>\<open>min\<close> only and then reads \<^verbatim>\<open>max\<close>
  without a test: for a descriptor that has \<^verbatim>\<open>min\<close> and lacks \<^verbatim>\<open>max\<close> the block raises
  \<^verbatim>\<open>KeyError('max')\<close> whatever the record holds, before it looks at the value. So no
  record of such a descriptor is ever accepted, and every record that passes the checks
  before the range block (integer uid, value present, uid in the catalog, writable
  access, enumeration satisfied if there is one) fails with that key-lookup error, not
  with a validation error, also as an element of a batch.
\<close>

theorem missing_max_raises_KeyError:
  assumes "features d = Some fs"
    and "map_of kvs ''uid'' = Some uid" and "is_int uid" and "map_of kvs ''value'' = Some v"
    and "map_of fs (py_str uid) = Some feature"
    and "f_min feature = Some lo" and "f_max feature = None"
  shows "(\<forall>data. check_range feature data = Inl (KeyError (JStr ''max'')))
   \<and> fst (test_feature_data (JObj kvs) d) \<noteq> Inr ()
   \<and> ((\<exists>acc. f_access feature = Some acc \<and> (lower acc = ''readwrite'' \<or> lower acc = ''writeonly''))
        \<and> (case f_values feature of None \<Rightarrow> True
                                     | Some vs \<Rightarrow> is_int v \<and> map_of vs (py_str v) \<noteq> None) \<longrightarrow>
        fst (test_feature_data (JObj kvs) d) = Inl (KeyError (JStr ''max''))
        \<and> (\<forall>rest. fst (test_feature (JObj kvs # rest) d) = Inl (KeyError (JStr ''max''))))"
proof -
  have block: "check_range feature data = Inl (KeyError (JStr ''max''))" for data
    using assms(6,7) by (simp add: check_range_def)
  have located: "locate_feature (Some fs) (JObj kvs) = Inr (py_str uid, feature)"
    using assms(2-5) by (simp add: locate_feature_record)
  have verdict: "fst (test_feature_data (JObj kvs) d)
           = and_then (check_access feature (py_str uid)) (\<lambda>u.
             and_then (check_values feature (JObj kvs)) (\<lambda>u. Inl (KeyError (JStr ''max''))))"
    using assms(1) located by (simp add: test_feature_data_verdict feature_verdict_def block)
  have never: "fst (test_feature_data (JObj kvs) d) \<noteq> Inr ()"
    unfolding verdict
    by (cases "check_access feature (py_str uid)"; cases "check_values feature (JObj kvs)") simp_all
  have reached: "fst (test_feature_data (JObj kvs) d) = Inl (KeyError (JStr ''max''))
        \<and> (\<forall>rest. fst (test_feature (JObj kvs # rest) d) = Inl (KeyError (JStr ''max'')))"
    if "\<exists>acc. f_access feature = Some acc \<and> (lower acc = ''readwrite'' \<or> lower acc = ''writeonly'')"
      and "case f_values feature of None \<Rightarrow> True
                                   | Some vs \<Rightarrow> is_int v \<and> map_of vs (py_str v) \<noteq> None"
  proof -
    from that(1) have "check_access feature (py_str uid) = Inr ()"
      by (auto simp: check_access_iff)
    moreover from that(2) have "check_values feature (JObj kvs) = Inr ()"
      by (simp add: check_values_iff [OF assms(4)])
    ultimately have one: "fst (test_feature_data (JObj kvs) d) = Inl (KeyError (JStr ''max''))"
      by (simp add: verdict)
    then have "feature_verdict (features d) (JObj kvs) = Inl (KeyError (JStr ''max''))"
      by (simp add: test_feature_data_verdict)
    then have "fst (test_feature (JObj kvs # rest) d) = Inl (KeyError (JStr ''max''))" for rest
      unfolding test_feature_verdict by simp
    with one show ?thesis by blast
  qed
  from block never reached show ?thesis by blast
qed

theorem missing_max_raises_KeyError_witness:
  "check_range \<lparr>f_name = ''BSH.Common.Option.StartInRelative'', f_access = Some ''readwrite'',
                f_values = None, f_min = Some 0, f_max = None\<rparr>
               (JObj [(''uid'', JInt 558), (''value'', JInt 5)]) = Inl (KeyError (JStr ''max''))
   \<and> fst (test_feature [JObj [(''uid'', JInt 558), (''value'', JInt 5)]]
            ((example_device idle_socket)\<lparr>features := Some open_range_catalog\<rparr>))
     = Inl (KeyError (JStr ''max''))"
proof -
  let ?dev = "(example_device idle_socket)\<lparr>features := Some open_range_catalog\<rparr>"
  let ?f = "\<lparr>f_name = ''BSH.Common.Option.StartInRelative'', f_access = Some ''readwrite'',
             f_values = None, f_min = Some 0, f_max = None\<rparr>"
  have cat: "features ?dev = Some open_range_catalog" by simp
  have str: "py_str (JInt 558) = ''558''"
    by (simp add: str_int_def str_nat.simps digit_def)
  have lookup: "map_of open_range_catalog (py_str (JInt 558)) = Some ?f"
    unfolding str by (simp add: open_range_catalog_def)
  have low: "lower ''readwrite'' = ''readwrite''"
    by (simp add: lower_def lower_char_def)
  from missing_max_raises_KeyError [OF cat _ _ _ lookup, of "[(''uid'', JInt 558), (''value'', JInt 5)]" "JInt 5" 0]
  show ?thesis by (simp add: low del: test_feature.simps py_str.simps)
qed

end
